theory Spec2Isabelle
  imports Complex_Main "HOL-Library.Word"
begin

unbundle bit_operations_syntax

section \<open>Request parameter normalisation\<close>

text \<open>
  The query parameters \<open>hour\<close> and \<open>var\<close> of the two routes are modelled as
  \<open>string option\<close>: \<open>None\<close> is an absent parameter (\<open>undefined\<close>), \<open>Some s\<close> a
  single-valued one. A character is one code unit; the model covers the code units
  \<open>0x00\<close> to \<open>0xFF\<close>.
\<close>

text \<open>The white space that \<open>String.prototype.trim\<close> and the regular expression class
  \<open>\s\<close> recognise, among the code units of the model: TAB, LF, VT, FF, CR, SPACE, NBSP.\<close>

definition isWhiteSpace :: "char \<Rightarrow> bool" where
  "isWhiteSpace c =
     (c = CHR 0x09 \<or> c = CHR 0x0A \<or> c = CHR 0x0B \<or> c = CHR 0x0C \<or> c = CHR 0x0D \<or>
      c = CHR '' '' \<or> c = CHR 0xA0)"

definition trim :: "string \<Rightarrow> string" where
  "trim s = rev (dropWhile isWhiteSpace (rev (dropWhile isWhiteSpace s)))"

text \<open>\<open>toUpperCase\<close>: the letters \<open>a\<close> to \<open>z\<close> are mapped to \<open>A\<close> to \<open>Z\<close>. The model
  leaves every other code unit as it is. JavaScript also maps some code units above
  \<open>0x7F\<close>, but never to a digit or to an ASCII letter other than \<open>S\<close> (from the sharp
  s, which becomes \<open>SS\<close>), so that among the strings of the model the two
  normalisers below accept the same inputs with the same results.\<close>

definition upperChar :: "char \<Rightarrow> char" where
  "upperChar c =
     (case map_of (zip ''abcdefghijklmnopqrstuvwxyz'' ''ABCDEFGHIJKLMNOPQRSTUVWXYZ'') c of
        Some u \<Rightarrow> u
      | None \<Rightarrow> c)"

definition toUpperCase :: "string \<Rightarrow> string" where
  "toUpperCase s = map upperChar s"

text \<open>\<open>s.replace(/H$/, '')\<close>: one trailing \<open>H\<close> is removed.\<close>

definition stripTrailingH :: "string \<Rightarrow> string" where
  "stripTrailingH s = (if s \<noteq> [] \<and> last s = CHR ''H'' then butlast s else s)"

definition isDigit :: "char \<Rightarrow> bool" where
  "isDigit c = (c \<in> set ''0123456789'')"

text \<open>\<open>/^\d{1,2}$/.test(s)\<close>\<close>

definition oneOrTwoDigits :: "string \<Rightarrow> bool" where
  "oneOrTwoDigits s = ((length s = 1 \<or> length s = 2) \<and> list_all isDigit s)"

definition digitValue :: "char \<Rightarrow> nat" where
  "digitValue c = (case map_of (zip ''0123456789'' [0, 1, 2, 3, 4, 5, 6, 7, 8, 9]) c of
                     Some d \<Rightarrow> d | None \<Rightarrow> 0)"

text \<open>\<open>Number(s)\<close> on a string of decimal digits.\<close>

definition numberOfDigits :: "string \<Rightarrow> nat" where
  "numberOfDigits s = foldl (\<lambda>acc c. 10 * acc + digitValue c) 0 s"

definition digitChar :: "nat \<Rightarrow> char" where
  "digitChar d = ''0123456789'' ! d"

text \<open>\<open>String(n)\<close> for a natural number.\<close>

fun natToString :: "nat \<Rightarrow> string" where
  "natToString n =
     (if n < 10 then [digitChar n] else natToString (n div 10) @ [digitChar (n mod 10)])"

declare natToString.simps [simp del]

definition padStart :: "nat \<Rightarrow> char \<Rightarrow> string \<Rightarrow> string" where
  "padStart n c s = replicate (n - length s) c @ s"

definition normalizeHourParam :: "string option \<Rightarrow> string option" where
  "normalizeHourParam hour =
     (case hour of
        None \<Rightarrow> None
      | Some raw \<Rightarrow>
          if raw = [] then None
          else
            let s = stripTrailingH (toUpperCase (trim raw)) in
            if \<not> oneOrTwoDigits s then None
            else
              let n = numberOfDigits s in
              if n < 8 \<or> n > 15 then None
              else Some (padStart 2 (CHR ''0'') (natToString n)))"

definition allowedVars :: "string list" where
  "allowedVars = [''CAPE'', ''RPRATE'', ''SPRATE'', ''GPRATE'', ''LCDC'', ''PRES'']"

definition normalizeVarParam :: "string option \<Rightarrow> string option" where
  "normalizeVarParam v =
     (case v of
        None \<Rightarrow> None
      | Some raw \<Rightarrow>
          if raw = [] then None
          else
            let s = toUpperCase (trim raw) in
            if s \<in> set allowedVars then Some s else None)"

text \<open>The first lines of both route handlers: \<open>defaultVar\<close> is the configured
  \<open>DEFAULT_VAR\<close>. The result is the resolved hour, the resolved variable, the time key
  and the cache key.\<close>

definition resolveVar :: "string \<Rightarrow> string option \<Rightarrow> string" where
  "resolveVar defaultVar v =
     (case normalizeVarParam v of Some s \<Rightarrow> s | None \<Rightarrow> defaultVar)"

definition timeKeyOf :: "string option \<Rightarrow> string" where
  "timeKeyOf hour = (case hour of Some hh \<Rightarrow> hh @ ''H'' | None \<Rightarrow> ''default'')"

definition requestKey :: "string \<Rightarrow> string option \<Rightarrow> string option \<Rightarrow> string" where
  "requestKey defaultVar qvar qhour =
     resolveVar defaultVar qvar @ ''_'' @ timeKeyOf (normalizeHourParam qhour)"

text \<open>The hour rule as the specification words it: trim, strip an optional trailing
  \<open>H\<close>, one or two digits in 8..15, zero-padded. It differs from \<open>normalizeHourParam\<close>
  in that it does not uppercase.\<close>

definition spec_normalizeHour :: "string option \<Rightarrow> string option" where
  "spec_normalizeHour hour =
     (case hour of
        None \<Rightarrow> None
      | Some raw \<Rightarrow>
          let s = stripTrailingH (trim raw) in
          if oneOrTwoDigits s \<and> 8 \<le> numberOfDigits s \<and> numberOfDigits s \<le> 15
          then Some (padStart 2 (CHR ''0'') (natToString (numberOfDigits s)))
          else None)"

text \<open>The variable rule as the specification words it: uppercase, then membership.\<close>

definition spec_normalizeVar :: "string option \<Rightarrow> string option" where
  "spec_normalizeVar v =
     (case v of
        None \<Rightarrow> None
      | Some raw \<Rightarrow> if toUpperCase raw \<in> set allowedVars then Some (toUpperCase raw) else None)"

definition hourLabels :: "string list" where
  "hourLabels = [''08'', ''09'', ''10'', ''11'', ''12'', ''13'', ''14'', ''15'']"


section \<open>Pixel post-processor\<close>

text \<open>
  A decoded PNG as \<open>pngjs\<close> hands it over: \<open>width\<close>, \<open>height\<close> and the RGBA buffer
  \<open>data\<close>, four bytes per pixel in row-major order. Reading and writing the file
  is lossless, so the content of a PNG file is modelled as this record.
\<close>

type_synonym byte = "8 word"

record png =
  width :: nat
  height :: nat
  data :: "byte list"

text \<open>\<open>n << 2\<close>: the operand is taken to a signed 32-bit integer, so the product
  wraps around at \<open>2^31\<close>.\<close>

definition toInt32 :: "int \<Rightarrow> int" where
  "toInt32 k = (k + 2 ^ 31) mod 2 ^ 32 - 2 ^ 31"

definition shl2 :: "int \<Rightarrow> int" where
  "shl2 n = toInt32 (n * 4)"

text \<open>\<open>data[i]\<close>: \<open>None\<close> is \<open>undefined\<close>, the value of a read outside the buffer.\<close>

definition byteAt :: "byte list \<Rightarrow> int \<Rightarrow> byte option" where
  "byteAt d i = (if 0 \<le> i \<and> nat i < length d then Some (d ! nat i) else None)"

text \<open>\<open>data[i] = v\<close>: a write outside the buffer is ignored.\<close>

definition setByte :: "byte list \<Rightarrow> int \<Rightarrow> byte \<Rightarrow> byte list" where
  "setByte d i v = (if 0 \<le> i \<and> nat i < length d then d[nat i := v] else d)"

definition pixelOffset :: "nat \<Rightarrow> nat \<Rightarrow> nat \<Rightarrow> int" where
  "pixelOffset w x y = shl2 (int w * int y + int x)"

text \<open>The pixels of a \<open>w\<close> by \<open>h\<close> raster in the order of the nested loops
  \<open>for y ... for x ...\<close>, as pairs \<open>(x, y)\<close>.\<close>

definition coords :: "nat \<Rightarrow> nat \<Rightarrow> (nat \<times> nat) list" where
  "coords w h = concat (map (\<lambda>y. map (\<lambda>x. (x, y)) [0..<w]) [0..<h])"

subsection \<open>Border transparency\<close>

text \<open>An operand of \<open><<\<close> and \<open>|\<close> that is \<open>undefined\<close> counts as 0.\<close>

definition intOfByte :: "byte option \<Rightarrow> int" where
  "intOfByte b = (case b of None \<Rightarrow> 0 | Some v \<Rightarrow> uint v)"

definition colorKey :: "byte option \<Rightarrow> byte option \<Rightarrow> byte option \<Rightarrow> int" where
  "colorKey r g b = push_bit 16 (intOfByte r) OR push_bit 8 (intOfByte g) OR intOfByte b"

text \<open>\<open>counts.set(key, (counts.get(key) || 0) + 1)\<close> on a \<open>Map\<close>, which keeps its keys
  in the order of their first insertion.\<close>

fun bump :: "int \<Rightarrow> (int \<times> nat) list \<Rightarrow> (int \<times> nat) list" where
  "bump k [] = [(k, 1)]"
| "bump k ((k', c) # rest) =
     (if k' = k then (k', c + 1) # rest else (k', c) # bump k rest)"

definition samplePixel ::
  "nat \<Rightarrow> byte list \<Rightarrow> nat \<times> nat \<Rightarrow> (int \<times> nat) list \<Rightarrow> (int \<times> nat) list" where
  "samplePixel w d p counts =
     (let i = pixelOffset w (fst p) (snd p) in
      if byteAt d (i + 3) = Some 0 then counts
      else bump (colorKey (byteAt d i) (byteAt d (i + 1)) (byteAt d (i + 2))) counts)"

text \<open>The two sampling loops: top and bottom row for every \<open>x\<close>, then left and right
  column for every \<open>y\<close>. They run only when \<open>w\<close> and \<open>h\<close> are positive.\<close>

definition borderSamples :: "nat \<Rightarrow> nat \<Rightarrow> (nat \<times> nat) list" where
  "borderSamples w h =
     concat (map (\<lambda>x. [(x, 0), (x, h - 1)]) [0..<w]) @
     concat (map (\<lambda>y. [(0, y), (w - 1, y)]) [0..<h])"

definition borderCounts :: "png \<Rightarrow> (int \<times> nat) list" where
  "borderCounts p = fold (samplePixel (width p) (data p)) (borderSamples (width p) (height p)) []"

definition pickStep :: "int \<times> nat \<Rightarrow> int option \<times> int \<Rightarrow> int option \<times> int" where
  "pickStep kc acc = (if int (snd kc) > snd acc then (Some (fst kc), int (snd kc)) else acc)"

definition pickDominant :: "(int \<times> nat) list \<Rightarrow> int option" where
  "pickDominant counts = fst (fold pickStep counts (None, - 1))"

definition dominantBorderKey :: "png \<Rightarrow> int option" where
  "dominantBorderKey p =
     (if width p = 0 \<or> height p = 0 then None else pickDominant (borderCounts p))"

text \<open>\<open>Math.abs(r - bgR) <= tol\<close> for the three channels; a channel that is
  \<open>undefined\<close> makes the comparison false.\<close>

definition withinTolerance :: "int \<Rightarrow> int \<Rightarrow> byte option \<Rightarrow> bool" where
  "withinTolerance tol bg c =
     (case c of None \<Rightarrow> False | Some v \<Rightarrow> \<bar>uint v - bg\<bar> \<le> tol)"

definition maskStep :: "int \<Rightarrow> int \<Rightarrow> nat \<Rightarrow> nat \<times> nat \<Rightarrow> byte list \<Rightarrow> byte list" where
  "maskStep tol bgKey w p d =
     (let i = pixelOffset w (fst p) (snd p) in
      if byteAt d (i + 3) = Some 0 then d
      else if withinTolerance tol (drop_bit 16 bgKey AND 255) (byteAt d i) \<and>
              withinTolerance tol (drop_bit 8 bgKey AND 255) (byteAt d (i + 1)) \<and>
              withinTolerance tol (bgKey AND 255) (byteAt d (i + 2))
           then setByte d (i + 3) 0
           else d)"

definition maskAll :: "int \<Rightarrow> int \<Rightarrow> nat \<Rightarrow> nat \<Rightarrow> byte list \<Rightarrow> byte list" where
  "maskAll tol bgKey w h d = fold (maskStep tol bgKey w) (coords w h) d"

text \<open>What \<open>makeDominantBorderColorTransparent\<close> writes back to the file: \<open>None\<close> when
  it returns before the write (an empty raster, or no border pixel with non-zero
  alpha). \<open>tol\<close> is the configured \<open>BORDER_COLOR_TOLERANCE\<close> (10 by default).\<close>

definition borderTransparencyWrite :: "int \<Rightarrow> png \<Rightarrow> png option" where
  "borderTransparencyWrite tol p =
     (case dominantBorderKey p of
        None \<Rightarrow> None
      | Some bgKey \<Rightarrow> Some (p\<lparr>data := maskAll tol bgKey (width p) (height p) (data p)\<rparr>))"

text \<open>The content of the file after the call.\<close>

definition makeDominantBorderColorTransparent :: "int \<Rightarrow> png \<Rightarrow> png" where
  "makeDominantBorderColorTransparent tol p =
     (case borderTransparencyWrite tol p of None \<Rightarrow> p | Some q \<Rightarrow> q)"

subsection \<open>Content crop\<close>

record crop_rect =
  minX :: int
  minY :: int
  maxX :: int
  maxY :: int
  fullWidth :: nat
  fullHeight :: nat

text \<open>\<open>a >= alphaThreshold\<close>; false for a read outside the buffer.\<close>

definition qualifies :: "int \<Rightarrow> nat \<Rightarrow> byte list \<Rightarrow> nat \<times> nat \<Rightarrow> bool" where
  "qualifies thr w d p =
     (case byteAt d (pixelOffset w (fst p) (snd p) + 3) of
        None \<Rightarrow> False
      | Some a \<Rightarrow> uint a \<ge> thr)"

text \<open>The scan state is \<open>(minX, minY, maxX, maxY)\<close>.\<close>

definition scanStep ::
  "int \<Rightarrow> nat \<Rightarrow> byte list \<Rightarrow> nat \<times> nat \<Rightarrow> int \<times> int \<times> int \<times> int \<Rightarrow> int \<times> int \<times> int \<times> int" where
  "scanStep thr w d p s =
     (case s of (mnX, mnY, mxX, mxY) \<Rightarrow>
        if qualifies thr w d p
        then (if int (fst p) < mnX then int (fst p) else mnX,
              if int (snd p) < mnY then int (snd p) else mnY,
              if int (fst p) > mxX then int (fst p) else mxX,
              if int (snd p) > mxY then int (snd p) else mxY)
        else s)"

definition scanAlpha :: "int \<Rightarrow> png \<Rightarrow> int \<times> int \<times> int \<times> int" where
  "scanAlpha thr p =
     fold (scanStep thr (width p) (data p)) (coords (width p) (height p))
       (int (width p), int (height p), - 1, - 1)"

text \<open>A byte stored from an \<open>undefined\<close> source is 0.\<close>

definition byteOr0 :: "byte option \<Rightarrow> byte" where
  "byteOr0 b = (case b of None \<Rightarrow> 0 | Some v \<Rightarrow> v)"

definition copyStep ::
  "nat \<Rightarrow> byte list \<Rightarrow> nat \<Rightarrow> nat \<Rightarrow> nat \<Rightarrow> nat \<times> nat \<Rightarrow> byte list \<Rightarrow> byte list" where
  "copyStep w d mnX mnY cropW p out =
     (let srcI = pixelOffset w (mnX + fst p) (mnY + snd p);
          dstI = pixelOffset cropW (fst p) (snd p);
          o0 = setByte out dstI (byteOr0 (byteAt d srcI));
          o1 = setByte o0 (dstI + 1) (byteOr0 (byteAt d (srcI + 1)));
          o2 = setByte o1 (dstI + 2) (byteOr0 (byteAt d (srcI + 2)))
      in setByte o2 (dstI + 3) (byteOr0 (byteAt d (srcI + 3))))"

definition cropData :: "png \<Rightarrow> nat \<Rightarrow> nat \<Rightarrow> nat \<Rightarrow> nat \<Rightarrow> byte list" where
  "cropData p mnX mnY cropW cropH =
     fold (copyStep (width p) (data p) mnX mnY cropW) (coords cropW cropH)
       (replicate (4 * cropW * cropH) 0)"

text \<open>\<open>cropPngToNonTransparent\<close>: the returned value (\<open>None\<close> is \<open>null\<close>) and the PNG it
  writes to the file, if it writes one. \<open>thr\<close> is the configured
  \<open>CROP_ALPHA_THRESHOLD\<close> (1 by default).\<close>

definition cropPngToNonTransparent :: "int \<Rightarrow> png \<Rightarrow> crop_rect option \<times> png option" where
  "cropPngToNonTransparent thr p =
     (case scanAlpha thr p of (mnX, mnY, mxX, mxY) \<Rightarrow>
        if mxX < mnX \<or> mxY < mnY then (None, None)
        else
          let cropW = nat (mxX - mnX + 1);
              cropH = nat (mxY - mnY + 1);
              rect = \<lparr>minX = mnX, minY = mnY, maxX = mxX, maxY = mxY,
                      fullWidth = width p, fullHeight = height p\<rparr>
          in if cropW = width p \<and> cropH = height p then (Some rect, None)
             else (Some rect,
                   Some \<lparr>width = cropW, height = cropH,
                         data = cropData p (nat mnX) (nat mnY) cropW cropH\<rparr>))"

text \<open>A raster as the decoder produces it: the buffer holds four bytes per pixel. The
  bound keeps every byte offset below \<open>2^31\<close>, where \<open><< 2\<close> does not wrap.\<close>

definition wellFormed :: "png \<Rightarrow> bool" where
  "wellFormed p = (length (data p) = 4 * width p * height p \<and> 4 * width p * height p < 2 ^ 31)"

text \<open>Channel \<open>k\<close> (0 to 3 for R, G, B, A) of the pixel \<open>(x, y)\<close> of a well-formed
  raster.\<close>

definition channel :: "png \<Rightarrow> nat \<Rightarrow> nat \<Rightarrow> nat \<Rightarrow> byte" where
  "channel p x y k = data p ! (4 * (width p * y + x) + k)"

definition alphaOf :: "png \<Rightarrow> nat \<Rightarrow> nat \<Rightarrow> byte" where
  "alphaOf p x y = data p ! (4 * (width p * y + x) + 3)"

text \<open>A 3 by 1 raster for concrete evaluation: two opaque black pixels and one opaque
  grey pixel.\<close>

definition twoToneStrip :: png where
  "twoToneStrip =
     \<lparr>width = 3, height = 1,
      data = [0, 0, 0, 255,  0, 0, 0, 255,  100, 100, 100, 255]\<rparr>"

text \<open>The relation between a buffer and a later one in which nothing changed but
  alpha bytes (offset 3 modulo 4) that went from non-zero to zero.\<close>

definition alphaOnlyCleared :: "byte list \<Rightarrow> byte list \<Rightarrow> bool" where
  "alphaOnlyCleared d d' =
     (length d' = length d \<and>
      (\<forall>j < length d. d' ! j = d ! j \<or> (j mod 4 = 3 \<and> d ! j \<noteq> 0 \<and> d' ! j = 0)))"

text \<open>A 2 by 2 raster of one opaque colour.\<close>

definition plainTile :: png where
  "plainTile =
     \<lparr>width = 2, height = 2,
      data = [10, 20, 30, 255,  10, 20, 30, 255,  10, 20, 30, 255,  10, 20, 30, 255]\<rparr>"

text \<open>The content of the file after \<open>cropPngToNonTransparent\<close>.\<close>

definition fileAfterCrop :: "int \<Rightarrow> png \<Rightarrow> png" where
  "fileAfterCrop thr p = (case snd (cropPngToNonTransparent thr p) of None \<Rightarrow> p | Some q \<Rightarrow> q)"

text \<open>A 3 by 2 raster that is transparent but for an opaque block covering the columns 1
  and 2 of row 1.\<close>

definition blockRaster :: png where
  "blockRaster =
     \<lparr>width = 3, height = 2,
      data = [1, 2, 3, 0,   4, 5, 6, 0,      7, 8, 9, 0,
              10, 11, 12, 0,  13, 14, 15, 255,  16, 17, 18, 255]\<rparr>"

text \<open>A 4 by 3 raster as a renderer leaves it: a grey opaque frame around two red
  opaque pixels in the middle row.\<close>

definition framedRaster :: png where
  "framedRaster =
     \<lparr>width = 4, height = 3,
      data = [200, 200, 200, 255,  200, 200, 200, 255,  200, 200, 200, 255,  200, 200, 200, 255,
              200, 200, 200, 255,  255, 0, 0, 255,      250, 0, 0, 255,      200, 200, 200, 255,
              200, 200, 200, 255,  200, 200, 200, 255,  200, 200, 200, 255,  200, 200, 200, 255]\<rparr>"

section \<open>Geo-bounds resolver\<close>

text \<open>
  Coordinates are JavaScript numbers; the model computes with real numbers, so the
  rounding of the floating-point operations is not represented. A bounding box is
  \<open>((southLat, westLon), (northLat, eastLon))\<close>.
\<close>

type_synonym latlon_bounds = "(real \<times> real) \<times> (real \<times> real)"

definition FRANCE_BOUNDS :: latlon_bounds where
  "FRANCE_BOUNDS = ((41.0, - 5.5), (51.5, 9.8))"

text \<open>The result is the pair \<open>(lon, lat)\<close>.\<close>

definition mercatorToLonLat :: "real \<Rightarrow> real \<Rightarrow> real \<times> real" where
  "mercatorToLonLat x y =
     (let R = 6378137
      in ((x / R) * (180 / pi), (2 * arctan (exp (y / R)) - pi / 2) * (180 / pi)))"

text \<open>The geotransform is the array that \<open>gdalinfo\<close> reports; the pipeline has checked
  before that it has six elements at least.\<close>

definition geotransformLooksGeographic :: "real list \<Rightarrow> bool" where
  "geotransformLooksGeographic gt =
     (let x0 = gt ! 0; y0 = gt ! 3; pxW = gt ! 1; pxH = gt ! 5
      in \<bar>x0\<bar> \<le> 360 \<and> \<bar>y0\<bar> \<le> 180 \<and> \<bar>pxW\<bar> > 0 \<and> \<bar>pxW\<bar> \<le> 5 \<and> \<bar>pxH\<bar> > 0 \<and> \<bar>pxH\<bar> \<le> 5)"

text \<open>The bounds computation inside \<open>convertGribToPngViaPipeline\<close>, from the geotransform
  and the rectangle that the crop returned.\<close>

definition boundsOfCrop :: "real list \<Rightarrow> crop_rect \<Rightarrow> latlon_bounds" where
  "boundsOfCrop gt crop =
     (let x0 = gt ! 0; pxW = gt ! 1; y0 = gt ! 3; pxH = gt ! 5;
          minCol = minX crop; maxCol = maxX crop; minRow = minY crop; maxRow = maxY crop;
          mnX = x0 + of_int minCol * pxW;
          mxX = x0 + (of_int maxCol + 1) * pxW;
          mxY = y0 + of_int minRow * pxH;
          mnY = y0 + (of_int maxRow + 1) * pxH
      in if geotransformLooksGeographic gt
         then ((min mnY mxY, min mnX mxX), (max mnY mxY, max mnX mxX))
         else
           let ll = mercatorToLonLat mnX mnY;
               ur = mercatorToLonLat mxX mxY
           in ((min (snd ll) (snd ur), min (fst ll) (fst ur)),
               (max (snd ll) (snd ur), max (fst ll) (fst ur))))"

section \<open>Conversion pipeline\<close>

text \<open>
  An exception value: the \<open>name\<close> and \<open>message\<close> of the \<open>Error\<close> object and the
  \<open>stderr\<close> and \<open>stdout\<close> that \<open>runCmd\<close> attaches to it; an absent property is the
  empty string, which is as falsy as \<open>undefined\<close>.
\<close>

record js_error =
  errName :: string
  errMessage :: string
  errStderr :: string
  errStdout :: string

text \<open>\<open>new Error(msg)\<close>\<close>

definition mkError :: "string \<Rightarrow> js_error" where
  "mkError msg = \<lparr>errName = ''Error'', errMessage = msg, errStderr = [], errStdout = []\<rparr>"

text \<open>\<open>String(e)\<close> for an \<open>Error\<close> object.\<close>

definition errorToString :: "js_error \<Rightarrow> string" where
  "errorToString e =
     (if errMessage e = [] then errName e
      else if errName e = [] then errMessage e
      else errName e @ '': '' @ errMessage e)"

text \<open>\<open>String((e && (e.stderr || e.stdout || e.message)) || e || 'Erreur inconnue')\<close>\<close>

definition errorText :: "js_error option \<Rightarrow> string" where
  "errorText lastErr =
     (case lastErr of
        None \<Rightarrow> ''Erreur inconnue''
      | Some e \<Rightarrow>
          if errStderr e \<noteq> [] then errStderr e
          else if errStdout e \<noteq> [] then errStdout e
          else if errMessage e \<noteq> [] then errMessage e
          else errorToString e)"

text \<open>\<open>s.replace(/\s+/g, ' ')\<close>: every maximal run of white space becomes one space.\<close>

function collapseWhitespace :: "string \<Rightarrow> string" where
  "collapseWhitespace [] = []"
| "collapseWhitespace (c # cs) =
     (if isWhiteSpace c then CHR '' '' # collapseWhitespace (dropWhile isWhiteSpace cs)
      else c # collapseWhitespace cs)"
  by pat_completeness auto
termination
  by (relation "measure length") (auto simp: le_imp_less_Suc length_dropWhile_le)

text \<open>\<open>... .replace(/\s+/g, ' ').slice(0, 600)\<close>\<close>

definition errorDetails :: "js_error option \<Rightarrow> string" where
  "errorDetails lastErr = take 600 (collapseWhitespace (errorText lastErr))"

text \<open>\<open>xs.join(sep)\<close>\<close>

fun joinWith :: "string \<Rightarrow> string list \<Rightarrow> string" where
  "joinWith sep [] = []"
| "joinWith sep [x] = x"
| "joinWith sep (x # y # ys) = x @ sep @ joinWith sep (y # ys)"

text \<open>The configuration read from the environment at start-up: \<open>GRIB_MATCHES\<close>, the
  path of the palette, \<open>RETRY_INTERVAL_MS\<close> (15000 by default),
  \<open>BORDER_COLOR_TOLERANCE\<close> (10 by default) and \<open>CROP_ALPHA_THRESHOLD\<close> (1 by
  default). The three numbers are only compared with integers, so they are modelled as
  integers.\<close>

record config =
  gribMatches :: "string list"
  dataPalette :: string
  retryIntervalMs :: int
  borderColorTolerance :: int
  cropAlphaThreshold :: int

text \<open>The four paths of \<open>getPathsForVarAndKey\<close>.\<close>

record artifact_paths =
  capeNc :: string
  capeTif :: string
  overlayPng :: string
  overlayTmpPng :: string

text \<open>The file operations that the server itself performs (\<open>fs.unlink\<close>,
  \<open>fs.writeFile\<close>, \<open>fs.rename\<close>), in the order in which it performs them. The files
  that the external tools write are not logged: \<open>wgrib2\<close> writes \<open>capeNc\<close>, \<open>gdalwarp\<close>
  writes \<open>capeTif\<close>, \<open>gdaldem\<close> writes \<open>overlayTmpPng\<close>.\<close>

datatype fs_op = Unlink string | WriteFile string | Rename string string

text \<open>
  What the world outside the process answers during one run of the pipeline, for
  each match expression: the outcome of the four commands (\<open>None\<close> is exit status 0),
  the size of the extracted file (\<open>None\<close> when \<open>stat\<close> fails), the raster that
  \<open>readPngWithRetry\<close> returns for the rendered file, the \<open>geoTransform\<close> property of the
  parsed \<open>gdalinfo\<close> output (\<open>None\<close> when it is not an array; \<open>Inl\<close> when the command
  or \<open>JSON.parse\<close> throws), and a failure of the second \<open>readPngWithRetry\<close>, which
  otherwise returns what border transparency left in the file. Writes and renames
  of the process are taken to succeed.
\<close>

record toolchain =
  paletteExists :: bool
  runWgrib2 :: "string \<Rightarrow> string \<Rightarrow> js_error option"
  netcdfSize :: "string \<Rightarrow> nat option"
  runGdalwarp :: "string \<Rightarrow> js_error option"
  runGdaldem :: "string \<Rightarrow> js_error option"
  readRendered :: "string \<Rightarrow> js_error + png"
  runGdalinfo :: "string \<Rightarrow> js_error + real list option"
  rereadFault :: "string \<Rightarrow> js_error option"

record pipeline_result =
  resBounds :: latlon_bounds
  resMatchExpr :: string

definition atomicReplaceFile :: "string \<Rightarrow> string \<Rightarrow> fs_op list" where
  "atomicReplaceFile tmpPath finalPath = [Unlink finalPath, Rename tmpPath finalPath]"

text \<open>\<open>ensureNonEmptyFile\<close>: the error it throws, if any.\<close>

definition ensureNonEmptyFile :: "nat option \<Rightarrow> nat \<Rightarrow> string \<Rightarrow> string \<Rightarrow> js_error option" where
  "ensureNonEmptyFile fileSize minBytes label filePath =
     (case fileSize of
        None \<Rightarrow> Some (mkError (label @ '' vide ou manquant: '' @ filePath))
      | Some n \<Rightarrow>
          if n = 0 \<or> n < minBytes
          then Some (mkError (label @ '' vide ou manquant: '' @ filePath))
          else None)"

text \<open>The first half of the body of the \<open>try\<close>: extraction, size check, reprojection
  and rendering. The result is the exception that ends the attempt, if any.\<close>

definition extractAndRender ::
  "toolchain \<Rightarrow> artifact_paths \<Rightarrow> string \<Rightarrow> string \<Rightarrow> js_error option" where
  "extractAndRender tc paths gribPath matchExpr =
     (case runWgrib2 tc gribPath matchExpr of
        Some e \<Rightarrow> Some e
      | None \<Rightarrow>
          (case ensureNonEmptyFile (netcdfSize tc matchExpr) 200
                  (''wgrib2 ('' @ matchExpr @ '') netcdf'') (capeNc paths) of
             Some e \<Rightarrow> Some e
           | None \<Rightarrow>
               (case runGdalwarp tc matchExpr of
                  Some e \<Rightarrow> Some e
                | None \<Rightarrow> runGdaldem tc matchExpr)))"

text \<open>The second half: border transparency, the geotransform, the crop, the bounds and
  the publication. The result is the log of file operations and the outcome.\<close>

definition postProcess ::
  "config \<Rightarrow> toolchain \<Rightarrow> artifact_paths \<Rightarrow> string \<Rightarrow> fs_op list \<times> (js_error + pipeline_result)" where
  "postProcess cfg tc paths matchExpr =
     (case readRendered tc matchExpr of
        Inl e \<Rightarrow> ([], Inl e)
      | Inr rendered \<Rightarrow>
          let ops1 = (case borderTransparencyWrite (borderColorTolerance cfg) rendered of
                        None \<Rightarrow> []
                      | Some _ \<Rightarrow> [WriteFile (overlayTmpPng paths)]);
              masked = makeDominantBorderColorTransparent (borderColorTolerance cfg) rendered
          in case runGdalinfo tc matchExpr of
               Inl e \<Rightarrow> (ops1, Inl e)
             | Inr None \<Rightarrow> (ops1, Inl (mkError ''gdalinfo: geoTransform manquant''))
             | Inr (Some gt) \<Rightarrow>
                 if length gt < 6 then (ops1, Inl (mkError ''gdalinfo: geoTransform manquant''))
                 else
                   (case rereadFault tc matchExpr of
                      Some e \<Rightarrow> (ops1, Inl e)
                    | None \<Rightarrow>
                        (case cropPngToNonTransparent (cropAlphaThreshold cfg) masked of
                           (None, wr) \<Rightarrow>
                             (ops1 @ atomicReplaceFile (overlayTmpPng paths) (overlayPng paths),
                              Inr \<lparr>resBounds = FRANCE_BOUNDS, resMatchExpr = matchExpr\<rparr>)
                         | (Some crop, wr) \<Rightarrow>
                             (ops1 @
                              (case wr of None \<Rightarrow> [] | Some _ \<Rightarrow> [WriteFile (overlayTmpPng paths)]) @
                              atomicReplaceFile (overlayTmpPng paths) (overlayPng paths),
                              Inr \<lparr>resBounds = boundsOfCrop gt crop, resMatchExpr = matchExpr\<rparr>))))"

text \<open>The body of the \<open>try\<close> for one candidate expression.\<close>

definition tryCandidate ::
  "config \<Rightarrow> toolchain \<Rightarrow> artifact_paths \<Rightarrow> string \<Rightarrow> string \<Rightarrow>
     fs_op list \<times> (js_error + pipeline_result)" where
  "tryCandidate cfg tc paths gribPath matchExpr =
     (case extractAndRender tc paths gribPath matchExpr of
        Some e \<Rightarrow> ([Unlink (capeNc paths)], Inl e)
      | None \<Rightarrow>
          (case postProcess cfg tc paths matchExpr of
             (ops, r) \<Rightarrow> (Unlink (capeNc paths) # ops, r)))"

text \<open>The exception that ends the attempt for one candidate, \<open>None\<close> when all its steps
  succeed.\<close>

definition candidateError ::
  "config \<Rightarrow> toolchain \<Rightarrow> artifact_paths \<Rightarrow> string \<Rightarrow> string \<Rightarrow> js_error option" where
  "candidateError cfg tc paths gribPath matchExpr =
     (case snd (tryCandidate cfg tc paths gribPath matchExpr) of
        Inl e \<Rightarrow> Some e
      | Inr res \<Rightarrow> None)"

text \<open>
  The \<open>for\<close> loop over the candidates, with \<open>lastErr\<close> as it stands on entry. The
  result is the list of the expressions tried, the log of file operations, and
  either the value returned from inside the loop or, when the loop runs to its end,
  the final \<open>lastErr\<close>.
\<close>

fun candidateLoop ::
  "config \<Rightarrow> toolchain \<Rightarrow> artifact_paths \<Rightarrow> string \<Rightarrow> string list \<Rightarrow> js_error option \<Rightarrow>
     string list \<times> fs_op list \<times> (js_error option + pipeline_result)" where
  "candidateLoop cfg tc paths gribPath [] lastErr = ([], [], Inl lastErr)"
| "candidateLoop cfg tc paths gribPath (m # ms) lastErr =
     (case tryCandidate cfg tc paths gribPath m of
        (ops, Inr res) \<Rightarrow> ([m], ops, Inr res)
      | (ops, Inl e) \<Rightarrow>
          (case candidateLoop cfg tc paths gribPath ms (Some e) of
             (tried, ops', r) \<Rightarrow> (m # tried, ops @ ops', r)))"

record pipeline_run =
  attempted :: "string list"
  fsLog :: "fs_op list"
  outcome :: "js_error + pipeline_result"

definition noFieldMessage :: "string list \<Rightarrow> js_error option \<Rightarrow> string" where
  "noFieldMessage matches lastErr =
     ''Aucun champ trouv'' @ [CHR 0xE9] @ '' via -match. Tent'' @ [CHR 0xE9] @ ''s: '' @
     joinWith '', '' matches @
     ''. Derni'' @ [CHR 0xE8] @ ''re erreur: '' @ errorDetails lastErr"

definition convertGribToPngViaPipeline ::
  "config \<Rightarrow> toolchain \<Rightarrow> string \<Rightarrow> string list \<Rightarrow> artifact_paths \<Rightarrow> pipeline_run" where
  "convertGribToPngViaPipeline cfg tc gribPath matchExprs paths =
     (if \<not> paletteExists tc
      then \<lparr>attempted = [], fsLog = [],
            outcome = Inl (mkError (''Palette manquante: '' @ dataPalette cfg))\<rparr>
      else
        let matches = (if matchExprs \<noteq> [] then matchExprs else gribMatches cfg)
        in case candidateLoop cfg tc paths gribPath matches None of
             (tried, ops, Inr res) \<Rightarrow> \<lparr>attempted = tried, fsLog = ops, outcome = Inr res\<rparr>
           | (tried, ops, Inl lastErr) \<Rightarrow>
               \<lparr>attempted = tried, fsLog = ops,
                outcome = Inl (mkError (noFieldMessage matches lastErr))\<rparr>)"

section \<open>Cache and refresh orchestrator\<close>

datatype source = Wgrib2 | Synthetic

text \<open>One entry of the \<open>caches\<close> map. Timestamps of \<open>Date.now()\<close> are integers (in
  milliseconds); the modification time \<open>mtimeMs\<close> of the grid file is a number that
  need not be an integer.\<close>

record cache_entry =
  updatedAt :: int
  bounds :: latlon_bounds
  source :: source
  message :: string
  gribMtimeMs :: "real option"
  pipelineAvailable :: "bool option"
  lastErrorAt :: int

definition makeEmptyCache :: cache_entry where
  "makeEmptyCache =
     \<lparr>updatedAt = 0, bounds = FRANCE_BOUNDS, source = Synthetic, message = ''synthetic'',
      gribMtimeMs = None, pipelineAvailable = None, lastErrorAt = 0\<rparr>"

text \<open>
  What one call of \<open>ensureOverlayUpToDate\<close> observes of the world: the clock on
  entry, the modification time of the grid file (\<open>None\<close> when \<open>stat\<close> fails), the
  three probes, the entry of \<open>conversionsInFlight\<close> for the key at the time of the
  decision together with the way that promise settles (\<open>None\<close>: no entry), whether the
  final PNG exists, the answers of the toolchain if the pipeline is run, and the two
  later readings of the clock (the one stored in \<open>updatedAt\<close>, and the one stored in
  \<open>lastErrorAt\<close> by the failure branch).
\<close>

record request_env =
  now :: int
  gribMtime :: "real option"
  hasWgrib2 :: bool
  hasGdalwarp :: bool
  hasGdaldem :: bool
  inFlight :: "(js_error + pipeline_result) option"
  overlayExists :: bool
  tools :: toolchain
  clockUpdate :: int
  clockError :: int

text \<open>
  The effect of one call: the cache entry with the assignments of this call applied
  (what another call assigns while this one is suspended is not part of it), the
  exception with which the returned promise rejects (if any), whether this call
  started the pipeline, the expressions the pipeline tried, the file operations of
  the call in order, and what the call itself does to the entry of the key in
  \<open>conversionsInFlight\<close>.
\<close>

datatype registry_op = Register | Deregister

record request_outcome =
  cacheAfter :: cache_entry
  thrown :: "js_error option"
  pipelineStarted :: bool
  tried :: "string list"
  fileOps :: "fs_op list"
  registryOps :: "registry_op list"

definition missingToolsOf :: "request_env \<Rightarrow> string list" where
  "missingToolsOf env =
     (if hasWgrib2 env then [] else [''wgrib2'']) @
     (if hasGdalwarp env then [] else [''gdalwarp'']) @
     (if hasGdaldem env then [] else [''gdaldem''])"

text \<open>The truthiness of \<open>gribMtimeMs\<close>: \<open>null\<close> and \<open>0\<close> are falsy.\<close>

definition mtimeTruthy :: "real option \<Rightarrow> bool" where
  "mtimeTruthy m = (case m of None \<Rightarrow> False | Some t \<Rightarrow> t \<noteq> 0)"

definition pipelineJustBecameAvailable :: "cache_entry \<Rightarrow> request_env \<Rightarrow> bool" where
  "pipelineJustBecameAvailable cache env =
     (missingToolsOf env = [] \<and> pipelineAvailable cache = Some False)"

definition shouldRetryAfterError :: "config \<Rightarrow> cache_entry \<Rightarrow> request_env \<Rightarrow> bool" where
  "shouldRetryAfterError cfg cache env =
     (mtimeTruthy (gribMtime env) \<and> missingToolsOf env = [] \<and> source cache \<noteq> Wgrib2 \<and>
      lastErrorAt cache \<noteq> 0 \<and> now env - lastErrorAt cache \<ge> retryIntervalMs cfg)"

text \<open>The condition of the first \<open>if\<close>; \<open>cache\<close> is the entry as the call found it.\<close>

definition regenerationWarranted :: "config \<Rightarrow> cache_entry \<Rightarrow> request_env \<Rightarrow> bool" where
  "regenerationWarranted cfg cache env =
     (mtimeTruthy (gribMtime env) \<and> missingToolsOf env = [] \<and>
      (gribMtimeMs cache \<noteq> gribMtime env \<or> shouldRetryAfterError cfg cache env \<or>
       pipelineJustBecameAvailable cache env))"

text \<open>The staleness test shared by the two synthetic branches.\<close>

definition syntheticStale :: "cache_entry \<Rightarrow> request_env \<Rightarrow> bool" where
  "syntheticStale cache env =
     (updatedAt cache = 0 \<or> now env - updatedAt cache > 30000 \<or> \<not> overlayExists env)"

definition okMessage :: "string \<Rightarrow> string list \<Rightarrow> pipeline_result \<Rightarrow> string" where
  "okMessage varKey matchExprs res =
     ''OK: '' @ varKey @ '' wgrib2 ('' @
     (if resMatchExpr res \<noteq> [] then resMatchExpr res else joinWith '','' matchExprs) @
     '') -> gdalwarp EPSG:3857 -> gdaldem color-relief''"

definition toolsMissingMessage :: "string list \<Rightarrow> string" where
  "toolsMissingMessage missing =
     ''GRIB d'' @ [CHR 0xE9] @ ''tect'' @ [CHR 0xE9] @ '' mais outils indisponibles ('' @
     joinWith '', '' missing @ ''). Fallback synth'' @ [CHR 0xE9] @ ''tique.''"

definition ensureOverlayUpToDate ::
  "config \<Rightarrow> cache_entry \<Rightarrow> request_env \<Rightarrow> string \<Rightarrow> artifact_paths \<Rightarrow> string list \<Rightarrow> string \<Rightarrow>
     request_outcome" where
  "ensureOverlayUpToDate cfg cache env gribPath paths matchExprs varKey =
     (let cache1 = cache\<lparr>pipelineAvailable := Some (missingToolsOf env = [])\<rparr>
      in if regenerationWarranted cfg cache env then
           (case inFlight env of
              Some settled \<Rightarrow>
                \<lparr>cacheAfter = cache1,
                 thrown = (case settled of Inl e \<Rightarrow> Some e | Inr _ \<Rightarrow> None),
                 pipelineStarted = False, tried = [], fileOps = [], registryOps = []\<rparr>
            | None \<Rightarrow>
                let run = convertGribToPngViaPipeline cfg (tools env) gribPath matchExprs paths
                in case outcome run of
                     Inr res \<Rightarrow>
                       \<lparr>cacheAfter =
                          cache1\<lparr>updatedAt := clockUpdate env, bounds := resBounds res,
                                 source := Wgrib2, message := okMessage varKey matchExprs res,
                                 gribMtimeMs := gribMtime env, lastErrorAt := 0\<rparr>,
                        thrown = None, pipelineStarted = True, tried = attempted run,
                        fileOps = fsLog run, registryOps = [Register, Deregister]\<rparr>
                   | Inl e \<Rightarrow>
                       \<lparr>cacheAfter =
                          cache1\<lparr>updatedAt := clockUpdate env, bounds := FRANCE_BOUNDS,
                                 source := Synthetic,
                                 message := ''Erreur pipeline: '' @ errorDetails (Some e),
                                 gribMtimeMs := gribMtime env, lastErrorAt := clockError env\<rparr>,
                        thrown = None, pipelineStarted = True, tried = attempted run,
                        fileOps = fsLog run @ [WriteFile (overlayTmpPng paths)] @
                                  atomicReplaceFile (overlayTmpPng paths) (overlayPng paths),
                        registryOps = [Register, Deregister]\<rparr>)
         else if \<not> mtimeTruthy (gribMtime env) \<and> syntheticStale cache env then
           \<lparr>cacheAfter =
              cache1\<lparr>updatedAt := clockUpdate env, bounds := FRANCE_BOUNDS, source := Synthetic,
                     message := ''GRIB manquant: place un fichier en '' @ gribPath,
                     gribMtimeMs := None\<rparr>,
            thrown = None, pipelineStarted = False, tried = [],
            fileOps = [WriteFile (overlayPng paths)], registryOps = []\<rparr>
         else if mtimeTruthy (gribMtime env) \<and> missingToolsOf env \<noteq> [] \<and> syntheticStale cache env then
           \<lparr>cacheAfter =
              cache1\<lparr>updatedAt := clockUpdate env, bounds := FRANCE_BOUNDS, source := Synthetic,
                     message := toolsMissingMessage (missingToolsOf env),
                     gribMtimeMs := gribMtime env\<rparr>,
            thrown = None, pipelineStarted = False, tried = [],
            fileOps = [WriteFile (overlayPng paths)], registryOps = []\<rparr>
         else
           \<lparr>cacheAfter = cache1, thrown = None, pipelineStarted = False, tried = [],
            fileOps = [], registryOps = []\<rparr>)"

text \<open>What the handler of \<open>/api/precip/meta\<close> answers from: the exception it turns into
  a status 500, or the cache entry from which it builds the JSON body (the entry as
  this call leaves it, when no other call has assigned to it in between).\<close>

definition metaObserved :: "request_outcome \<Rightarrow> js_error + cache_entry" where
  "metaObserved out = (case thrown out of Some e \<Rightarrow> Inl e | None \<Rightarrow> Inr (cacheAfter out))"

text \<open>The invariant of the specification: a synthetic entry reports the whole-region
  default bounding box.\<close>

definition syntheticHasDefaultBounds :: "cache_entry \<Rightarrow> bool" where
  "syntheticHasDefaultBounds c = (source c = Synthetic \<longrightarrow> bounds c = FRANCE_BOUNDS)"

text \<open>The decision as the specification words it: a modification time exists, the
  toolchain is available, and the modification time differs from the cached one, or
  the source is not the toolchain and the backoff interval has elapsed since
  \<open>lastErrorAt\<close>, or the toolchain has just become available.\<close>

definition spec_regenerationWarranted :: "config \<Rightarrow> cache_entry \<Rightarrow> request_env \<Rightarrow> bool" where
  "spec_regenerationWarranted cfg cache env =
     (gribMtime env \<noteq> None \<and> missingToolsOf env = [] \<and>
      (gribMtimeMs cache \<noteq> gribMtime env \<or>
       (source cache \<noteq> Wgrib2 \<and> now env - lastErrorAt cache \<ge> retryIntervalMs cfg) \<or>
       (missingToolsOf env = [] \<and> pipelineAvailable cache = Some False)))"


subsection \<open>Concrete configurations and environments\<close>

definition exampleConfig :: config where
  "exampleConfig =
     \<lparr>gribMatches = ['':RPRATE:'', '':PRATE:'', '':APCP:''],
      dataPalette = ''data/palette.txt'',
      retryIntervalMs = 15000, borderColorTolerance = 10, cropAlphaThreshold = 1\<rparr>"

definition examplePaths :: artifact_paths where
  "examplePaths =
     \<lparr>capeNc = ''cache/rprate_08H.nc'', capeTif = ''cache/rprate_08H_3857.tif'',
      overlayPng = ''cache/rprate_08H_color.png'',
      overlayTmpPng = ''cache/rprate_08H_color.tmp.png''\<rparr>"

definition noMatchError :: js_error where
  "noMatchError =
     \<lparr>errName = ''Error'', errMessage = ''Command failed: wgrib2'',
      errStderr = ''no  '' @ [CHR 0x0A] @ ''matching field'', errStdout = []\<rparr>"

text \<open>A toolchain in which \<open>wgrib2\<close> fails for every expression.\<close>

definition failingTools :: toolchain where
  "failingTools =
     \<lparr>paletteExists = True,
      runWgrib2 = (\<lambda>gribPath matchExpr. Some noMatchError),
      netcdfSize = (\<lambda>matchExpr. None),
      runGdalwarp = (\<lambda>matchExpr. None),
      runGdaldem = (\<lambda>matchExpr. None),
      readRendered = (\<lambda>matchExpr. Inr blockRaster),
      runGdalinfo = (\<lambda>matchExpr. Inr None),
      rereadFault = (\<lambda>matchExpr. None)\<rparr>"

text \<open>A toolchain in which \<open>wgrib2\<close> finds no field for \<open>:RPRATE:\<close> and succeeds for every
  other expression; the rendered raster is the framed raster, on a geographic grid
  with origin \<open>(-5, 51)\<close> and pixels of one degree.\<close>

definition secondChoiceTools :: toolchain where
  "secondChoiceTools =
     \<lparr>paletteExists = True,
      runWgrib2 = (\<lambda>gribPath matchExpr. if matchExpr = '':RPRATE:'' then Some noMatchError else None),
      netcdfSize = (\<lambda>matchExpr. Some 4096),
      runGdalwarp = (\<lambda>matchExpr. None),
      runGdaldem = (\<lambda>matchExpr. None),
      readRendered = (\<lambda>matchExpr. Inr framedRaster),
      runGdalinfo = (\<lambda>matchExpr. Inr (Some [- 5, 1, 0, 51, 0, - 1])),
      rereadFault = (\<lambda>matchExpr. None)\<rparr>"

text \<open>A request at which the grid file exists and the three tools are found.\<close>

definition readyRequest :: "toolchain \<Rightarrow> int \<Rightarrow> request_env" where
  "readyRequest tc t =
     \<lparr>now = t, gribMtime = Some 1700000000000, hasWgrib2 = True, hasGdalwarp = True,
      hasGdaldem = True, inFlight = None, overlayExists = False, tools = tc,
      clockUpdate = t + 900, clockError = t + 901\<rparr>"

text \<open>A request at which the grid file is missing.\<close>

definition noGribRequest :: "int \<Rightarrow> request_env" where
  "noGribRequest t = (readyRequest failingTools t)\<lparr>gribMtime := None\<rparr>"

text \<open>A request at which \<open>gdalwarp\<close> is not found.\<close>

definition noToolRequest :: "int \<Rightarrow> request_env" where
  "noToolRequest t = (readyRequest failingTools t)\<lparr>hasGdalwarp := False\<rparr>"

text \<open>An entry as the toolchain-unavailable branch leaves it, seen again after a
  concurrent request has recorded that the tools are available: synthetic, same
  modification time as the file, no failure recorded.\<close>

definition unretriedEntry :: cache_entry where
  "unretriedEntry =
     makeEmptyCache\<lparr>updatedAt := 1700000050000, gribMtimeMs := Some 1700000000000,
                     pipelineAvailable := Some True\<rparr>"

text \<open>The request of a second caller that arrives while the conversion started by a
  first caller is in flight; \<open>settled\<close> is how that conversion ends.\<close>

definition waitingRequest :: "int \<Rightarrow> js_error + pipeline_result \<Rightarrow> request_env" where
  "waitingRequest t settled = (readyRequest failingTools t)\<lparr>inFlight := Some settled\<rparr>"

definition exampleExprs :: "string list" where
  "exampleExprs = ['':RPRATE:'', '':PRATE:'', '':APCP:'']"

text \<open>The entry that a first request leaves when every candidate fails.\<close>

definition entryAfterFailure :: cache_entry where
  "entryAfterFailure =
     cacheAfter (ensureOverlayUpToDate exampleConfig makeEmptyCache
       (readyRequest failingTools 1700000100000) ''data/08H.grib2'' examplePaths exampleExprs
       ''RPRATE'')"

text \<open>An entry as a successful conversion of an older grid file leaves it: the source is
  the toolchain and the bounds are cropped ones.\<close>

definition toolchainEntry :: cache_entry where
  "toolchainEntry =
     \<lparr>updatedAt = 1700000050000, bounds = ((49, - 4), (50, - 2)), source = Wgrib2,
      message = ''OK'', gribMtimeMs = Some 1699999000000, pipelineAvailable = Some True,
      lastErrorAt = 0\<rparr>"

section \<open>Border transparency changes alpha bytes only\<close>

text \<open>Every pixel offset is a multiple of four, also after the 32-bit wrap-around, so
  the only byte the masking loop can write is an alpha byte.\<close>

lemma toInt32_mod4: "toInt32 (n * 4) mod 4 = 0"
proof -
  have "(4::int) dvd (n * 4 + 2 ^ 31)" by simp
  moreover have "(4::int) dvd 2 ^ 32" by simp
  ultimately have "(4::int) dvd (n * 4 + 2 ^ 31) mod 2 ^ 32"
    by (simp only: dvd_mod_iff)
  moreover have "(4::int) dvd 2 ^ 31" by simp
  ultimately have "(4::int) dvd (n * 4 + 2 ^ 31) mod 2 ^ 32 - 2 ^ 31" by (rule dvd_diff)
  then show ?thesis unfolding toInt32_def by (simp only: mod_eq_0_iff_dvd)
qed

lemma pixelOffset_mod4: "pixelOffset w x y mod 4 = 0"
  unfolding pixelOffset_def shl2_def by (rule toInt32_mod4)

lemma alpha_index_mod4:
  assumes "i mod 4 = 0" "0 \<le> i + 3"
  shows "nat (i + 3) mod 4 = 3"
proof -
  have nn: "0 \<le> i" using assms by presburger
  have "(i + 3) mod 4 = 3" using assms(1) by presburger
  then have "int (nat (i + 3) mod 4) = 3" using nn by (simp add: zmod_int)
  then show ?thesis by linarith
qed

lemma alphaOnlyCleared_refl: "alphaOnlyCleared d d"
  by (simp add: alphaOnlyCleared_def)

lemma alphaOnlyCleared_trans:
  "alphaOnlyCleared a b \<Longrightarrow> alphaOnlyCleared b c \<Longrightarrow> alphaOnlyCleared a c"
  unfolding alphaOnlyCleared_def by metis

lemma alphaOnlyCleared_setByte:
  assumes "i mod 4 = 0" "byteAt d (i + 3) \<noteq> Some 0"
  shows "alphaOnlyCleared d (setByte d (i + 3) 0)"
proof (cases "0 \<le> i + 3 \<and> nat (i + 3) < length d")
  case False
  then show ?thesis by (auto simp add: setByte_def alphaOnlyCleared_refl)
next
  case True
  then have nz: "d ! nat (i + 3) \<noteq> 0" using assms(2) by (simp add: byteAt_def)
  have m: "nat (i + 3) mod 4 = 3" using assms(1) True by (simp add: alpha_index_mod4)
  show ?thesis
    unfolding alphaOnlyCleared_def setByte_def using True nz m
    by (auto simp: nth_list_update)
qed

lemma maskStep_frame: "alphaOnlyCleared d (maskStep tol bg w p d)"
  unfolding maskStep_def Let_def
  by (simp add: alphaOnlyCleared_refl alphaOnlyCleared_setByte pixelOffset_mod4)

lemma fold_maskStep_frame: "alphaOnlyCleared d (fold (maskStep tol bg w) ps d)"
proof (induction ps arbitrary: d)
  case Nil
  show ?case by (simp add: alphaOnlyCleared_refl)
next
  case (Cons p ps)
  have "alphaOnlyCleared d (maskStep tol bg w p d)" by (rule maskStep_frame)
  moreover have "alphaOnlyCleared (maskStep tol bg w p d)
      (fold (maskStep tol bg w) ps (maskStep tol bg w p d))"
    by (rule Cons.IH)
  ultimately show ?case using alphaOnlyCleared_trans by simp
qed

lemma maskAll_frame: "alphaOnlyCleared d (maskAll tol bg w h d)"
  by (simp add: maskAll_def fold_maskStep_frame)

lemma makeDominant_frame:
  "alphaOnlyCleared (data p) (data (makeDominantBorderColorTransparent tol p))"
  by (simp add: makeDominantBorderColorTransparent_def borderTransparencyWrite_def
      alphaOnlyCleared_refl maskAll_frame split: option.split)

lemma makeDominant_dims:
  "width (makeDominantBorderColorTransparent tol p) = width p \<and>
   height (makeDominantBorderColorTransparent tol p) = height p"
  by (simp add: makeDominantBorderColorTransparent_def borderTransparencyWrite_def
      split: option.split)

text \<open>
  Claim C10. Border transparency never alters colour data. For every raster \<open>p\<close> and
  every tolerance, the raster left in the file has the width and the height of \<open>p\<close>
  and a buffer of the same length, and every byte of the buffer is either unchanged
  or is an alpha byte (offset 3 modulo 4) that was non-zero and is now zero. So the
  R, G and B bytes of every pixel are unchanged, no alpha grows, and an alpha that is
  already zero stays untouched.
\<close>

theorem border_transparency_frame:
  "width (makeDominantBorderColorTransparent tol p) = width p \<and>
   height (makeDominantBorderColorTransparent tol p) = height p \<and>
   length (data (makeDominantBorderColorTransparent tol p)) = length (data p) \<and>
   (\<forall>j < length (data p).
      data (makeDominantBorderColorTransparent tol p) ! j = data p ! j \<or>
      (j mod 4 = 3 \<and> data p ! j \<noteq> 0 \<and>
       data (makeDominantBorderColorTransparent tol p) ! j = 0))"
  using makeDominant_frame [of p tol] makeDominant_dims [of tol p]
  unfolding alphaOnlyCleared_def by simp

text \<open>On the two-tone strip the first black pixel loses its alpha (byte 3) and keeps
  its colour bytes.\<close>

theorem border_transparency_frame_witness:
  "(3::nat) < length (data twoToneStrip) \<and>
   data twoToneStrip ! 3 = 255 \<and>
   data (makeDominantBorderColorTransparent 10 twoToneStrip) ! 3 = 0 \<and>
   take 3 (data (makeDominantBorderColorTransparent 10 twoToneStrip)) = take 3 (data twoToneStrip) \<and>
   width (makeDominantBorderColorTransparent 10 twoToneStrip) = 3"
proof -
  have e: "data (makeDominantBorderColorTransparent 10 twoToneStrip) =
           [0, 0, 0, 0,  0, 0, 0, 0,  100, 100, 100, 255]"
    by code_simp
  have d: "data twoToneStrip = [0, 0, 0, 255,  0, 0, 0, 255,  100, 100, 100, 255]"
    by (simp add: twoToneStrip_def)
  have w: "width twoToneStrip = 3" by (simp add: twoToneStrip_def)
  show ?thesis
    using border_transparency_frame [of 10 twoToneStrip] e d w by simp
qed

section \<open>Border transparency applied twice\<close>

text \<open>The masking loop for a fixed background colour and tolerance is idempotent: a
  pixel it has looked at is either transparent afterwards or outside the tolerance,
  and no later step changes that.\<close>

lemma length_setByte [simp]: "length (setByte d i v) = length d"
  by (simp add: setByte_def)

lemma byteAt_setByte:
  "byteAt (setByte d i v) j =
     (if j = i \<and> 0 \<le> i \<and> nat i < length d then Some v else byteAt d j)"
  by (auto simp: byteAt_def setByte_def nth_list_update)

lemma offsets_apart:
  assumes "(i::int) mod 4 = 0" "j mod 4 = 0"
  shows "j \<noteq> i + 3" "j + 1 \<noteq> i + 3" "j + 2 \<noteq> i + 3"
  using assms by presburger+

lemma setByte_same: "byteAt d i = Some v \<Longrightarrow> setByte d i v = d"
  by (auto simp: byteAt_def setByte_def split: if_splits)

lemma setByte_out: "byteAt d i = None \<Longrightarrow> setByte d i v = d"
  by (auto simp: byteAt_def setByte_def split: if_splits)

lemma maskStep_cases:
  "maskStep tol bg w p d = d \<or>
   (maskStep tol bg w p d = setByte d (pixelOffset w (fst p) (snd p) + 3) 0)"
  by (simp add: maskStep_def Let_def)

lemma maskStep_idem: "maskStep tol bg w q (maskStep tol bg w q d) = maskStep tol bg w q d"
proof -
  let ?i = "pixelOffset w (fst q) (snd q)"
  have m: "?i mod 4 = 0" by (rule pixelOffset_mod4)
  show ?thesis
  proof (cases "byteAt d (?i + 3)")
    case None
    then show ?thesis
      by (simp add: maskStep_def Let_def setByte_out)
  next
    case (Some a)
    then have inr: "0 \<le> ?i + 3 \<and> nat (?i + 3) < length d"
      by (auto simp: byteAt_def split: if_splits)
    show ?thesis
      using Some inr by (simp add: maskStep_def Let_def byteAt_setByte)
  qed
qed

lemma maskStep_settled_preserved:
  assumes "maskStep tol bg w q d = d"
  shows "maskStep tol bg w q (maskStep tol bg w p d) = maskStep tol bg w p d"
proof -
  let ?i = "pixelOffset w (fst q) (snd q)"
  let ?k = "pixelOffset w (fst p) (snd p)"
  have mi: "?i mod 4 = 0" and mk: "?k mod 4 = 0" by (rule pixelOffset_mod4)+
  note ap = offsets_apart [OF mk mi]
  consider (same) "maskStep tol bg w p d = d"
    | (upd) "maskStep tol bg w p d = setByte d (?k + 3) 0" "0 \<le> ?k + 3" "nat (?k + 3) < length d"
    using maskStep_cases [of tol bg w p d] by (auto simp: setByte_def split: if_splits)
  then show ?thesis
  proof cases
    case same
    then show ?thesis using assms by simp
  next
    case upd
    show ?thesis
    proof (cases "byteAt d (?i + 3)")
      case None
      then have "byteAt (setByte d (?k + 3) 0) (?i + 3) = None \<or> byteAt (setByte d (?k + 3) 0) (?i + 3) = Some 0"
        by (simp add: byteAt_setByte)
      then show ?thesis
        unfolding upd(1) by (auto simp add: maskStep_def Let_def setByte_out)
    next
      case (Some a)
      then have inr: "0 \<le> ?i + 3 \<and> nat (?i + 3) < length d"
        by (auto simp: byteAt_def split: if_splits)
      have nochange: "a \<noteq> 0 \<Longrightarrow> \<not> (withinTolerance tol (drop_bit 16 bg AND 255) (byteAt d ?i) \<and>
              withinTolerance tol (drop_bit 8 bg AND 255) (byteAt d (?i + 1)) \<and>
              withinTolerance tol (bg AND 255) (byteAt d (?i + 2)))"
      proof
        assume a0: "a \<noteq> 0" and wt: "withinTolerance tol (drop_bit 16 bg AND 255) (byteAt d ?i) \<and>
              withinTolerance tol (drop_bit 8 bg AND 255) (byteAt d (?i + 1)) \<and>
              withinTolerance tol (bg AND 255) (byteAt d (?i + 2))"
        then have "maskStep tol bg w q d = setByte d (?i + 3) 0"
          using Some by (simp add: maskStep_def Let_def)
        then have "setByte d (?i + 3) 0 = d" using assms by simp
        then have "byteAt d (?i + 3) = Some 0"
          using inr by (metis byteAt_setByte)
        then show False using Some a0 by simp
      qed
      show ?thesis
        unfolding upd(1) using Some nochange ap
        by (auto simp add: maskStep_def Let_def byteAt_setByte)
    qed
  qed
qed

lemma fold_settled_id:
  "(\<And>q. q \<in> set ps \<Longrightarrow> maskStep tol bg w q d = d) \<Longrightarrow> fold (maskStep tol bg w) ps d = d"
  by (induction ps) auto

lemma fold_preserves_settled:
  "maskStep tol bg w q d = d \<Longrightarrow> maskStep tol bg w q (fold (maskStep tol bg w) ps d) = fold (maskStep tol bg w) ps d"
  by (induction ps arbitrary: d) (auto simp: maskStep_settled_preserved)

lemma fold_all_settled:
  "q \<in> set ps \<Longrightarrow> maskStep tol bg w q (fold (maskStep tol bg w) ps d) = fold (maskStep tol bg w) ps d"
proof (induction ps arbitrary: d)
  case Nil
  then show ?case by simp
next
  case (Cons p ps)
  show ?case
  proof (cases "q = p")
    case True
    have "maskStep tol bg w p (maskStep tol bg w p d) = maskStep tol bg w p d" by (rule maskStep_idem)
    then show ?thesis using True fold_preserves_settled by simp
  next
    case False
    then have "q \<in> set ps" using Cons.prems by simp
    then show ?thesis using Cons.IH by simp
  qed
qed

lemma maskAll_idem: "maskAll tol bg w h (maskAll tol bg w h d) = maskAll tol bg w h d"
  unfolding maskAll_def by (rule fold_settled_id) (rule fold_all_settled)


text \<open>
  Claim C7, as amended. A second application of border transparency changes nothing
  when it finds no border pixel with non-zero alpha or selects the background colour
  of the first application again; and the masking pass for a fixed
  background colour and tolerance is idempotent. (In general the second application
  selects another colour, since the first one made the pixels of its own background
  colour transparent, and those are not sampled.)
\<close>

theorem border_transparency_twice:
  "((dominantBorderKey (makeDominantBorderColorTransparent tol p) = None \<or>
     dominantBorderKey (makeDominantBorderColorTransparent tol p) = dominantBorderKey p) \<longrightarrow>
    makeDominantBorderColorTransparent tol (makeDominantBorderColorTransparent tol p) =
      makeDominantBorderColorTransparent tol p) \<and>
   maskAll tol bg w h (maskAll tol bg w h d) = maskAll tol bg w h d"
proof (intro conjI impI)
  let ?q = "makeDominantBorderColorTransparent tol p"
  assume h: "dominantBorderKey ?q = None \<or> dominantBorderKey ?q = dominantBorderKey p"
  show "makeDominantBorderColorTransparent tol ?q = ?q"
  proof (cases "dominantBorderKey ?q")
    case None
    then show ?thesis
      by (simp add: makeDominantBorderColorTransparent_def [of tol ?q] borderTransparencyWrite_def)
  next
    case (Some k)
    then have pk: "dominantBorderKey p = Some k" using h by simp
    have q: "?q = p\<lparr>data := maskAll tol k (width p) (height p) (data p)\<rparr>"
      using pk by (simp add: makeDominantBorderColorTransparent_def borderTransparencyWrite_def)
    have "makeDominantBorderColorTransparent tol ?q =
            ?q\<lparr>data := maskAll tol k (width ?q) (height ?q) (data ?q)\<rparr>"
      using Some
      by (simp add: makeDominantBorderColorTransparent_def [of tol ?q] borderTransparencyWrite_def)
    also have "\<dots> = ?q"
      by (simp add: q maskAll_idem)
    finally show ?thesis .
  qed
next
  show "maskAll tol bg w h (maskAll tol bg w h d) = maskAll tol bg w h d"
    by (rule maskAll_idem)
qed

text \<open>On the plain tile the first application makes every pixel transparent, the
  second finds no border colour and changes nothing.\<close>

theorem border_transparency_twice_witness:
  "dominantBorderKey (makeDominantBorderColorTransparent 10 plainTile) = None \<and>
   data (makeDominantBorderColorTransparent 10 plainTile) =
     [10, 20, 30, 0,  10, 20, 30, 0,  10, 20, 30, 0,  10, 20, 30, 0] \<and>
   makeDominantBorderColorTransparent 10 (makeDominantBorderColorTransparent 10 plainTile) =
     makeDominantBorderColorTransparent 10 plainTile"
proof -
  have k: "dominantBorderKey (makeDominantBorderColorTransparent 10 plainTile) = None"
    by code_simp
  have d: "data (makeDominantBorderColorTransparent 10 plainTile) =
     [10, 20, 30, 0,  10, 20, 30, 0,  10, 20, 30, 0,  10, 20, 30, 0]"
    by code_simp
  show ?thesis
    using border_transparency_twice [of 10 plainTile] k d by simp
qed

text \<open>The claim as stated fails on the two-tone strip: the first application selects
  black and clears the two black pixels, the second one selects the grey that is left
  on the border and clears the third pixel as well.\<close>

theorem border_transparency_not_idempotent:
  "data (makeDominantBorderColorTransparent 10 twoToneStrip) =
     [0, 0, 0, 0,  0, 0, 0, 0,  100, 100, 100, 255] \<and>
   data (makeDominantBorderColorTransparent 10 (makeDominantBorderColorTransparent 10 twoToneStrip)) =
     [0, 0, 0, 0,  0, 0, 0, 0,  100, 100, 100, 0] \<and>
   makeDominantBorderColorTransparent 10 (makeDominantBorderColorTransparent 10 twoToneStrip) \<noteq>
     makeDominantBorderColorTransparent 10 twoToneStrip"
proof -
  have a: "data (makeDominantBorderColorTransparent 10 twoToneStrip) =
     [0, 0, 0, 0,  0, 0, 0, 0,  100, 100, 100, 255]"
    by code_simp
  have b: "data (makeDominantBorderColorTransparent 10 (makeDominantBorderColorTransparent 10 twoToneStrip)) =
     [0, 0, 0, 0,  0, 0, 0, 0,  100, 100, 100, 0]"
    by code_simp
  have "data (makeDominantBorderColorTransparent 10 (makeDominantBorderColorTransparent 10 twoToneStrip)) \<noteq>
        data (makeDominantBorderColorTransparent 10 twoToneStrip)"
    unfolding a b by simp
  then have "makeDominantBorderColorTransparent 10 (makeDominantBorderColorTransparent 10 twoToneStrip) \<noteq>
     makeDominantBorderColorTransparent 10 twoToneStrip"
    by auto
  then show ?thesis using a b by simp
qed

section \<open>Content crop\<close>

text \<open>On a well-formed raster every pixel offset is below \<open>2^31\<close>, the shift does not
  wrap, and the four bytes of a pixel are inside the buffer.\<close>

lemma cell_index_bound:
  assumes "x < w" "y < h"
  shows "w * y + x < w * (h::nat)"
proof -
  have "w * y + x < w * y + w" using assms(1) by simp
  also have "\<dots> = w * Suc y" by simp
  also have "\<dots> \<le> w * h" using assms(2) by (intro mult_le_mono2) simp
  finally show ?thesis .
qed

lemma toInt32_small: "0 \<le> k \<Longrightarrow> k < 2 ^ 31 \<Longrightarrow> toInt32 k = k"
  by (simp add: toInt32_def)

lemma pixelOffset_small:
  assumes "4 * w * h < (2::nat) ^ 31" "x < w" "y < h"
  shows "pixelOffset w x y = int (4 * (w * y + x))"
proof -
  have "w * y + x < w * h" using assms(2,3) by (rule cell_index_bound)
  then have "4 * (w * y + x) < 4 * w * h" by simp
  then have "4 * (w * y + x) < (2::nat) ^ 31" using assms(1) by linarith
  then have "int (4 * (w * y + x)) < 2 ^ 31" by (metis of_nat_less_iff of_nat_numeral of_nat_power)
  moreover have "(int w * int y + int x) * 4 = int (4 * (w * y + x))" by simp
  ultimately show ?thesis
    unfolding pixelOffset_def shl2_def by (simp only: toInt32_small of_nat_0_le_iff)
qed

lemma byteAt_nat: "n < length d \<Longrightarrow> byteAt d (int n) = Some (d ! n)"
  by (simp add: byteAt_def)

lemma byteAt_pixel:
  assumes "length d = 4 * w * h" "4 * w * h < (2::nat) ^ 31" "x < w" "y < h" "k < 4"
  shows "byteAt d (pixelOffset w x y + int k) = Some (d ! (4 * (w * y + x) + k))"
proof -
  have "w * y + x < w * h" using assms(3,4) by (rule cell_index_bound)
  then have "4 * (w * y + x) + k < length d" using assms(1,5) by simp
  then have "byteAt d (int (4 * (w * y + x) + k)) = Some (d ! (4 * (w * y + x) + k))"
    by (rule byteAt_nat)
  moreover have "pixelOffset w x y + int k = int (4 * (w * y + x) + k)"
    using pixelOffset_small [OF assms(2,3,4)] by simp
  ultimately show ?thesis by simp
qed

lemma set_coords: "set (coords w h) = {(x, y). x < w \<and> y < h}"
  by (auto simp: coords_def)

lemma qualifies_wf:
  assumes "wellFormed p" "x < width p" "y < height p"
  shows "qualifies thr (width p) (data p) (x, y) = (thr \<le> uint (alphaOf p x y))"
proof -
  have "byteAt (data p) (pixelOffset (width p) x y + int 3) =
          Some (data p ! (4 * (width p * y + x) + 3))"
    using assms by (intro byteAt_pixel [where h = "height p"]) (simp_all add: wellFormed_def)
  then show ?thesis by (simp add: qualifies_def alphaOf_def)
qed

text \<open>The scan: the four extremes bound every qualifying pixel, and each of them is
  either its initial value or attained by a qualifying pixel.\<close>

lemma scan_none:
  "(\<And>q. q \<in> set ps \<Longrightarrow> \<not> qualifies thr w d q) \<Longrightarrow> fold (scanStep thr w d) ps s = s"
  by (induction ps arbitrary: s) (auto simp: scanStep_def split: prod.splits)

lemma scan_bounds:
  assumes "fold (scanStep thr w d) ps (a, b, c, e) = (a', b', c', e')"
  shows "a' \<le> a \<and> b' \<le> b \<and> c \<le> c' \<and> e \<le> e' \<and>
         (\<forall>q \<in> set ps. qualifies thr w d q \<longrightarrow>
            a' \<le> int (fst q) \<and> int (fst q) \<le> c' \<and> b' \<le> int (snd q) \<and> int (snd q) \<le> e')"
  using assms
proof (induction ps arbitrary: a b c e)
  case Nil
  then show ?case by simp
next
  case (Cons q ps)
  obtain a1 b1 c1 e1 where s1: "scanStep thr w d q (a, b, c, e) = (a1, b1, c1, e1)"
    by (metis prod_cases4)
  have r: "fold (scanStep thr w d) ps (a1, b1, c1, e1) = (a', b', c', e')"
    using Cons.prems s1 by simp
  note ih = Cons.IH [OF r]
  have st: "a1 \<le> a \<and> b1 \<le> b \<and> c \<le> c1 \<and> e \<le> e1 \<and>
        (qualifies thr w d q \<longrightarrow> a1 \<le> int (fst q) \<and> int (fst q) \<le> c1 \<and> b1 \<le> int (snd q) \<and> int (snd q) \<le> e1)"
    using s1 by (auto simp: scanStep_def split: if_splits)
  show ?case using ih st by auto
qed

lemma scan_attained:
  assumes "fold (scanStep thr w d) ps (a, b, c, e) = (a', b', c', e')"
  shows "(a' = a \<or> (\<exists>q \<in> set ps. qualifies thr w d q \<and> a' = int (fst q))) \<and>
         (b' = b \<or> (\<exists>q \<in> set ps. qualifies thr w d q \<and> b' = int (snd q))) \<and>
         (c' = c \<or> (\<exists>q \<in> set ps. qualifies thr w d q \<and> c' = int (fst q))) \<and>
         (e' = e \<or> (\<exists>q \<in> set ps. qualifies thr w d q \<and> e' = int (snd q)))"
  using assms
proof (induction ps arbitrary: a b c e)
  case Nil
  then show ?case by simp
next
  case (Cons q ps)
  obtain a1 b1 c1 e1 where s1: "scanStep thr w d q (a, b, c, e) = (a1, b1, c1, e1)"
    by (metis prod_cases4)
  have r: "fold (scanStep thr w d) ps (a1, b1, c1, e1) = (a', b', c', e')"
    using Cons.prems s1 by simp
  note ih = Cons.IH [OF r]
  have st: "(a1 = a \<or> (qualifies thr w d q \<and> a1 = int (fst q))) \<and>
            (b1 = b \<or> (qualifies thr w d q \<and> b1 = int (snd q))) \<and>
            (c1 = c \<or> (qualifies thr w d q \<and> c1 = int (fst q))) \<and>
            (e1 = e \<or> (qualifies thr w d q \<and> e1 = int (snd q)))"
    using s1 by (auto simp: scanStep_def split: if_splits)
  have A: "a' = a \<or> (\<exists>q' \<in> set (q # ps). qualifies thr w d q' \<and> a' = int (fst q'))"
    using ih st by (metis list.set_intros(1) list.set_intros(2))
  have B: "b' = b \<or> (\<exists>q' \<in> set (q # ps). qualifies thr w d q' \<and> b' = int (snd q'))"
    using ih st by (metis list.set_intros(1) list.set_intros(2))
  have C: "c' = c \<or> (\<exists>q' \<in> set (q # ps). qualifies thr w d q' \<and> c' = int (fst q'))"
    using ih st by (metis list.set_intros(1) list.set_intros(2))
  have E: "e' = e \<or> (\<exists>q' \<in> set (q # ps). qualifies thr w d q' \<and> e' = int (snd q'))"
    using ih st by (metis list.set_intros(1) list.set_intros(2))
  show ?case using A B C E by blast
qed


text \<open>The copy loop: each destination pixel receives the four bytes of its source
  pixel, and distinct pixels do not overlap.\<close>

lemma cell_index_inj:
  assumes "x < w" "x' < w" "w * y + x = w * y' + (x'::nat)"
  shows "x = x' \<and> y = y'"
proof -
  have "(w * y + x) mod w = x" "(w * y' + x') mod w = x'" using assms(1,2) by simp_all
  then have x: "x = x'" using assms(3) by simp
  have "(w * y + x) div w = y" "(w * y' + x') div w = y'" using assms(1,2) by simp_all
  then have "y = y'" using assms(3) by simp
  then show ?thesis using x by simp
qed

lemma setByte_int: "n < length d \<Longrightarrow> i = int n \<Longrightarrow> setByte d i v = d[n := v]"
  by (simp add: setByte_def)

lemma write4:
  assumes "D + 3 < length out"
  shows "setByte (setByte (setByte (setByte out (int D) a) (int D + 1) b) (int D + 2) c) (int D + 3) e =
         out[D := a, D + 1 := b, D + 2 := c, D + 3 := e]"
proof -
  have 0: "setByte out (int D) a = out[D := a]"
    using assms by (intro setByte_int) simp_all
  have 1: "setByte (out[D := a]) (int D + 1) b = out[D := a, D + 1 := b]"
    using assms by (intro setByte_int) simp_all
  have 2: "setByte (out[D := a, D + 1 := b]) (int D + 2) c = out[D := a, D + 1 := b, D + 2 := c]"
    using assms by (intro setByte_int) simp_all
  have 3: "setByte (out[D := a, D + 1 := b, D + 2 := c]) (int D + 3) e =
           out[D := a, D + 1 := b, D + 2 := c, D + 3 := e]"
    using assms by (intro setByte_int) simp_all
  show ?thesis by (simp only: 0 1 2 3)
qed

lemma nth4:
  assumes "D + 3 < length out"
  shows "out[D := a0, D + 1 := a1, D + 2 := a2, D + 3 := a3] ! (D + k) =
           (if k = 0 then a0 else if k = 1 then a1 else if k = 2 then a2
            else if k = 3 then a3 else out ! (D + k))"
  using assms by (auto simp: nth_list_update)

lemma nth4_other:
  assumes "J < D \<or> D + 3 < J"
  shows "out[D := a0, D + 1 := a1, D + 2 := a2, D + 3 := a3] ! J = out ! J"
  using assms by (auto simp: nth_list_update)

lemma copyStep_wf:
  assumes src: "length d = 4 * w * h" "4 * w * h < (2::nat) ^ 31" "mnX + x < w" "mnY + y < h"
    and dst: "length out = 4 * cw * ch" "4 * cw * ch < (2::nat) ^ 31" "x < cw" "y < ch"
    and D: "D = 4 * (cw * y + x)" and S: "S = 4 * (w * (mnY + y) + (mnX + x))"
  shows "copyStep w d mnX mnY cw (x, y) out =
           out[D := d ! S, D + 1 := d ! (S + 1), D + 2 := d ! (S + 2), D + 3 := d ! (S + 3)]"
proof -
  have s: "\<And>k. k < 4 \<Longrightarrow> byteAt d (pixelOffset w (mnX + x) (mnY + y) + int k) = Some (d ! (S + k))"
    unfolding S using byteAt_pixel [OF src] by simp
  have s0: "byteAt d (pixelOffset w (mnX + x) (mnY + y)) = Some (d ! S)" using s [of 0] by simp
  have s1: "byteAt d (pixelOffset w (mnX + x) (mnY + y) + 1) = Some (d ! (S + 1))" using s [of 1] by simp
  have s2: "byteAt d (pixelOffset w (mnX + x) (mnY + y) + 2) = Some (d ! (S + 2))" using s [of 2] by simp
  have s3: "byteAt d (pixelOffset w (mnX + x) (mnY + y) + 3) = Some (d ! (S + 3))" using s [of 3] by simp
  have po: "pixelOffset cw x y = int D" unfolding D using pixelOffset_small [OF dst(2,3,4)] .
  have "cw * y + x < cw * ch" using dst(3,4) by (rule cell_index_bound)
  then have inr: "D + 3 < length out" unfolding D using dst(1) by simp
  show ?thesis
    unfolding copyStep_def Let_def fst_conv snd_conv s0 s1 s2 s3 po byteOr0_def option.case
    by (rule write4 [OF inr])
qed

lemma copyStep_nth:
  assumes src: "length d = 4 * w * h" "4 * w * h < (2::nat) ^ 31" "mnX + x < w" "mnY + y < h"
    and dst: "length out = 4 * cw * ch" "4 * cw * ch < (2::nat) ^ 31" "x < cw" "y < ch"
    and j: "x' < cw" "y' < ch" "k < 4"
  shows "copyStep w d mnX mnY cw (x, y) out ! (4 * (cw * y' + x') + k) =
           (if (x', y') = (x, y) then d ! (4 * (w * (mnY + y') + (mnX + x')) + k)
            else out ! (4 * (cw * y' + x') + k))"
proof -
  define D where "D = 4 * (cw * y + x)"
  define S where "S = 4 * (w * (mnY + y) + (mnX + x))"
  define J where "J = 4 * (cw * y' + x') + k"
  note cs = copyStep_wf [OF src dst D_def S_def]
  have "cw * y + x < cw * ch" using dst(3,4) by (rule cell_index_bound)
  then have inr: "D + 3 < length out" unfolding D_def using dst(1) by simp
  show ?thesis
  proof (cases "(x', y') = (x, y)")
    case True
    then have xy: "x' = x" "y' = y" by simp_all
    have JD: "J = D + k" unfolding J_def D_def xy by simp
    have "k = 0 \<or> k = 1 \<or> k = 2 \<or> k = 3" using j(3) by arith
    then have "copyStep w d mnX mnY cw (x, y) out ! J = d ! (S + k)"
      unfolding cs JD nth4 [OF inr] by auto
    then show ?thesis unfolding J_def S_def xy by simp
  next
    case False
    then have ne: "cw * y' + x' \<noteq> cw * y + x"
      using cell_index_inj [OF j(1) dst(3)] by blast
    have "J < D \<or> D + 3 < J" unfolding J_def D_def using ne j(3) by presburger
    then have "copyStep w d mnX mnY cw (x, y) out ! J = out ! J"
      unfolding cs by (rule nth4_other)
    then show ?thesis unfolding J_def if_not_P [OF False] .
  qed
qed

lemma length_copyStep [simp]: "length (copyStep w d mnX mnY cw q out) = length out"
  by (simp add: copyStep_def Let_def setByte_def)

lemma length_fold_copyStep [simp]:
  "length (fold (copyStep w d mnX mnY cw) ps out) = length out"
  by (induction ps arbitrary: out) simp_all

lemma fold_copyStep_nth:
  assumes src: "length d = 4 * w * h" "4 * w * h < (2::nat) ^ 31"
    and dst: "length out = 4 * cw * ch" "4 * cw * ch < (2::nat) ^ 31"
    and ps: "\<And>x y. (x, y) \<in> set ps \<Longrightarrow> x < cw \<and> y < ch \<and> mnX + x < w \<and> mnY + y < h"
    and j: "x' < cw" "y' < ch" "k < 4"
    and J: "J = 4 * (cw * y' + x') + k" and V: "V = d ! (4 * (w * (mnY + y') + (mnX + x')) + k)"
  shows "fold (copyStep w d mnX mnY cw) ps out ! J = (if (x', y') \<in> set ps then V else out ! J)"
  using dst(1) ps
proof (induction ps arbitrary: out)
  case Nil
  then show ?case by simp
next
  case (Cons q ps)
  obtain x y where q: "q = (x, y)" by (cases q)
  have b: "x < cw \<and> y < ch \<and> mnX + x < w \<and> mnY + y < h" using Cons.prems(2) [of x y] q by simp
  define o1 where "o1 = copyStep w d mnX mnY cw (x, y) out"
  have l1: "length o1 = 4 * cw * ch" using Cons.prems(1) by (simp add: o1_def)
  have rest: "\<And>x y. (x, y) \<in> set ps \<Longrightarrow> x < cw \<and> y < ch \<and> mnX + x < w \<and> mnY + y < h"
    using Cons.prems(2) by (meson list.set_intros(2))
  have ih: "fold (copyStep w d mnX mnY cw) ps o1 ! J = (if (x', y') \<in> set ps then V else o1 ! J)"
    using rest by (rule Cons.IH [OF l1])
  have st: "o1 ! J = (if (x', y') = (x, y) then V else out ! J)"
    unfolding o1_def J V using b
    by (intro copyStep_nth [OF src _ _ Cons.prems(1) dst(2) _ _ j]) simp_all
  have "fold (copyStep w d mnX mnY cw) (q # ps) out = fold (copyStep w d mnX mnY cw) ps o1"
    by (simp add: q o1_def)
  then show ?case using ih st q by auto
qed

lemma cropData_nth:
  assumes "wellFormed p" "mnX + cw \<le> width p" "mnY + ch \<le> height p" "x < cw" "y < ch" "k < 4"
  shows "cropData p mnX mnY cw ch ! (4 * (cw * y + x) + k) =
           data p ! (4 * (width p * (mnY + y) + (mnX + x)) + k)"
proof -
  have wf: "length (data p) = 4 * width p * height p" "4 * width p * height p < (2::nat) ^ 31"
    using assms(1) by (simp_all add: wellFormed_def)
  have "cw * ch \<le> width p * height p"
    using assms(2,3) by (intro mult_le_mono) simp_all
  then have "4 * cw * ch \<le> 4 * width p * height p" by simp
  then have small: "4 * cw * ch < (2::nat) ^ 31" using wf(2) by (rule le_less_trans)
  have in_ps: "(x, y) \<in> set (coords cw ch)" using assms(4,5) by (simp add: set_coords)
  have "fold (copyStep (width p) (data p) mnX mnY cw) (coords cw ch) (replicate (4 * cw * ch) 0) !
          (4 * (cw * y + x) + k) =
        (if (x, y) \<in> set (coords cw ch) then data p ! (4 * (width p * (mnY + y) + (mnX + x)) + k)
         else replicate (4 * cw * ch) 0 ! (4 * (cw * y + x) + k))"
  proof (rule fold_copyStep_nth [OF wf _ small _ assms(4,5,6) refl refl])
    show "length (replicate (4 * cw * ch) (0::byte)) = 4 * cw * ch" by simp
  next
    fix x y assume "(x, y) \<in> set (coords cw ch)"
    then show "x < cw \<and> y < ch \<and> mnX + x < width p \<and> mnY + y < height p"
      using assms(2,3) by (auto simp: set_coords)
  qed
  then show ?thesis unfolding cropData_def using in_ps by (simp only: if_True)
qed

lemma length_cropData [simp]: "length (cropData p mnX mnY cw ch) = 4 * cw * ch"
  by (simp add: cropData_def)


lemma crop_main:
  assumes wf: "wellFormed p"
  shows "(case cropPngToNonTransparent thr p of
      (None, wr) \<Rightarrow> wr = None \<and> (\<forall>x<width p. \<forall>y<height p. \<not> thr \<le> uint (alphaOf p x y))
    | (Some r, wr) \<Rightarrow>
        fullWidth r = width p \<and> fullHeight r = height p \<and>
        0 \<le> minX r \<and> minX r \<le> maxX r \<and> maxX r < int (width p) \<and>
        0 \<le> minY r \<and> minY r \<le> maxY r \<and> maxY r < int (height p) \<and>
        (\<forall>x<width p. \<forall>y<height p. thr \<le> uint (alphaOf p x y) \<longrightarrow>
           minX r \<le> int x \<and> int x \<le> maxX r \<and> minY r \<le> int y \<and> int y \<le> maxY r) \<and>
        (\<exists>y<height p. thr \<le> uint (alphaOf p (nat (minX r)) y)) \<and>
        (\<exists>y<height p. thr \<le> uint (alphaOf p (nat (maxX r)) y)) \<and>
        (\<exists>x<width p. thr \<le> uint (alphaOf p x (nat (minY r)))) \<and>
        (\<exists>x<width p. thr \<le> uint (alphaOf p x (nat (maxY r)))) \<and>
        (if minX r = 0 \<and> minY r = 0 \<and> maxX r = int (width p) - 1 \<and> maxY r = int (height p) - 1
         then wr = None
         else \<exists>q. wr = Some q \<and>
                width q = nat (maxX r - minX r + 1) \<and> height q = nat (maxY r - minY r + 1) \<and>
                length (data q) = 4 * width q * height q \<and>
                (\<forall>x<width q. \<forall>y<height q. \<forall>k<4.
                   channel q x y k = channel p (nat (minX r) + x) (nat (minY r) + y) k)))"
proof -
  let ?w = "width p" and ?h = "height p" and ?d = "data p"
  obtain a b c e where sc: "scanAlpha thr p = (a, b, c, e)" by (metis prod_cases4)
  then have fo: "fold (scanStep thr ?w ?d) (coords ?w ?h) (int ?w, int ?h, - 1, - 1) = (a, b, c, e)"
    by (simp add: scanAlpha_def)
  have q_iff: "qualifies thr ?w ?d (x, y) = (thr \<le> uint (alphaOf p x y))" if "x < ?w" "y < ?h" for x y
    using wf that by (rule qualifies_wf)
  have encl: "a \<le> int x \<and> int x \<le> c \<and> b \<le> int y \<and> int y \<le> e"
    if "x < ?w" "y < ?h" "thr \<le> uint (alphaOf p x y)" for x y
  proof -
    have "(x, y) \<in> set (coords ?w ?h)" using that by (simp add: set_coords)
    moreover have "qualifies thr ?w ?d (x, y)" using that q_iff by simp
    ultimately show ?thesis using scan_bounds [OF fo] by fastforce
  qed
  have att: "(a = int ?w \<or> (\<exists>x y. x < ?w \<and> y < ?h \<and> thr \<le> uint (alphaOf p x y) \<and> a = int x)) \<and>
             (b = int ?h \<or> (\<exists>x y. x < ?w \<and> y < ?h \<and> thr \<le> uint (alphaOf p x y) \<and> b = int y)) \<and>
             (c = - 1 \<or> (\<exists>x y. x < ?w \<and> y < ?h \<and> thr \<le> uint (alphaOf p x y) \<and> c = int x)) \<and>
             (e = - 1 \<or> (\<exists>x y. x < ?w \<and> y < ?h \<and> thr \<le> uint (alphaOf p x y) \<and> e = int y))"
  proof -
    have conv: "\<exists>x y. x < ?w \<and> y < ?h \<and> thr \<le> uint (alphaOf p x y) \<and> v = int (f (x, y))"
      if "\<exists>q\<in>set (coords ?w ?h). qualifies thr ?w ?d q \<and> v = int (f q)" for v and f :: "nat \<times> nat \<Rightarrow> nat"
    proof -
      from that obtain x y where m: "(x, y) \<in> set (coords ?w ?h)"
        and ql: "qualifies thr ?w ?d (x, y)" and v: "v = int (f (x, y))" by auto
      have xy: "x < ?w" "y < ?h" using m by (simp_all add: set_coords)
      then have "thr \<le> uint (alphaOf p x y)" using ql q_iff by simp
      then show ?thesis using xy v by blast
    qed
    note sa = scan_attained [OF fo]
    have A: "a = int ?w \<or> (\<exists>x y. x < ?w \<and> y < ?h \<and> thr \<le> uint (alphaOf p x y) \<and> a = int x)"
      using sa conv [of a fst] by auto
    have B: "b = int ?h \<or> (\<exists>x y. x < ?w \<and> y < ?h \<and> thr \<le> uint (alphaOf p x y) \<and> b = int y)"
      using sa conv [of b snd] by auto
    have C: "c = - 1 \<or> (\<exists>x y. x < ?w \<and> y < ?h \<and> thr \<le> uint (alphaOf p x y) \<and> c = int x)"
      using sa conv [of c fst] by auto
    have E: "e = - 1 \<or> (\<exists>x y. x < ?w \<and> y < ?h \<and> thr \<le> uint (alphaOf p x y) \<and> e = int y)"
      using sa conv [of e snd] by auto
    show ?thesis using A B C E by blast
  qed
  show ?thesis
  proof (cases "c < a \<or> e < b")
    case True
    then have res: "cropPngToNonTransparent thr p = (None, None)"
      by (simp add: cropPngToNonTransparent_def sc)
    have "\<not> thr \<le> uint (alphaOf p x y)" if "x < ?w" "y < ?h" for x y
      using encl [OF that] True by linarith
    then show ?thesis unfolding res by simp
  next
    case False
    then have ac: "a \<le> c" and be: "b \<le> e" by simp_all
    have a0: "0 \<le> a" using att by auto
    have b0: "0 \<le> b" using att by auto
    have cw: "c < int ?w" using att ac a0 by auto
    have eh: "e < int ?h" using att be b0 by auto
    have a_att: "\<exists>x y. x < ?w \<and> y < ?h \<and> thr \<le> uint (alphaOf p x y) \<and> a = int x"
      using att ac cw by auto
    have b_att: "\<exists>x y. x < ?w \<and> y < ?h \<and> thr \<le> uint (alphaOf p x y) \<and> b = int y"
      using att be eh by auto
    have c_att: "\<exists>x y. x < ?w \<and> y < ?h \<and> thr \<le> uint (alphaOf p x y) \<and> c = int x"
      using att ac a0 by auto
    have e_att: "\<exists>x y. x < ?w \<and> y < ?h \<and> thr \<le> uint (alphaOf p x y) \<and> e = int y"
      using att be b0 by auto
    have ta: "\<exists>y<?h. thr \<le> uint (alphaOf p (nat a) y)" using a_att by auto
    have tc: "\<exists>y<?h. thr \<le> uint (alphaOf p (nat c) y)" using c_att by auto
    have tb: "\<exists>x<?w. thr \<le> uint (alphaOf p x (nat b))" using b_att by auto
    have te: "\<exists>x<?w. thr \<le> uint (alphaOf p x (nat e))" using e_att by auto
    define r where "r = \<lparr>minX = a, minY = b, maxX = c, maxY = e, fullWidth = ?w, fullHeight = ?h\<rparr>"
    define cW where "cW = nat (c - a + 1)"
    define cH where "cH = nat (e - b + 1)"
    have full_iff: "(cW = ?w \<and> cH = ?h) = (a = 0 \<and> b = 0 \<and> c = int ?w - 1 \<and> e = int ?h - 1)"
      unfolding cW_def cH_def using ac be a0 b0 cw eh by linarith
    have res: "cropPngToNonTransparent thr p =
        (Some r, if cW = ?w \<and> cH = ?h then None
                 else Some \<lparr>width = cW, height = cH, data = cropData p (nat a) (nat b) cW cH\<rparr>)"
      using False by (simp add: cropPngToNonTransparent_def sc Let_def r_def cW_def cH_def)
    have fit: "nat a + cW \<le> ?w" "nat b + cH \<le> ?h"
      unfolding cW_def cH_def using ac be a0 b0 cw eh by linarith+
    have ch: "channel \<lparr>width = cW, height = cH, data = cropData p (nat a) (nat b) cW cH\<rparr> x y k =
              channel p (nat a + x) (nat b + y) k" if "x < cW" "y < cH" "k < 4" for x y k
      unfolding channel_def using cropData_nth [OF wf fit that] by simp
    have rf: "minX r = a" "minY r = b" "maxX r = c" "maxY r = e" "fullWidth r = ?w" "fullHeight r = ?h"
      by (simp_all add: r_def)
    have part1: "fullWidth r = width p \<and> fullHeight r = height p \<and>
        0 \<le> minX r \<and> minX r \<le> maxX r \<and> maxX r < int (width p) \<and>
        0 \<le> minY r \<and> minY r \<le> maxY r \<and> maxY r < int (height p)"
      unfolding rf using a0 b0 ac be cw eh by simp
    have part2: "\<forall>x<width p. \<forall>y<height p. thr \<le> uint (alphaOf p x y) \<longrightarrow>
           minX r \<le> int x \<and> int x \<le> maxX r \<and> minY r \<le> int y \<and> int y \<le> maxY r"
      unfolding rf using encl by blast
    have part3: "(\<exists>y<height p. thr \<le> uint (alphaOf p (nat (minX r)) y)) \<and>
        (\<exists>y<height p. thr \<le> uint (alphaOf p (nat (maxX r)) y)) \<and>
        (\<exists>x<width p. thr \<le> uint (alphaOf p x (nat (minY r)))) \<and>
        (\<exists>x<width p. thr \<le> uint (alphaOf p x (nat (maxY r))))"
      unfolding rf using ta tb tc te by blast
    show ?thesis
    proof (cases "cW = ?w \<and> cH = ?h")
      case True
      then have res': "cropPngToNonTransparent thr p = (Some r, None)" using res by simp
      have fl: "minX r = 0 \<and> minY r = 0 \<and> maxX r = int (width p) - 1 \<and> maxY r = int (height p) - 1"
        unfolding rf using True full_iff by simp
      show ?thesis unfolding res' using part1 part2 part3 fl by simp
    next
      case False
      define q where "q = \<lparr>width = cW, height = cH, data = cropData p (nat a) (nat b) cW cH\<rparr>"
      have res': "cropPngToNonTransparent thr p = (Some r, Some q)" using res False by (simp add: q_def)
      have nfl: "\<not> (minX r = 0 \<and> minY r = 0 \<and> maxX r = int (width p) - 1 \<and> maxY r = int (height p) - 1)"
        unfolding rf using False full_iff by simp
      have qd: "width q = nat (maxX r - minX r + 1) \<and> height q = nat (maxY r - minY r + 1) \<and>
                length (data q) = 4 * width q * height q"
        unfolding rf by (simp add: q_def cW_def cH_def)
      have qc: "\<forall>x<width q. \<forall>y<height q. \<forall>k<4.
                   channel q x y k = channel p (nat (minX r) + x) (nat (minY r) + y) k"
        unfolding rf using ch by (simp add: q_def)
      have part4: "\<exists>q'. Some q = Some q' \<and>
                width q' = nat (maxX r - minX r + 1) \<and> height q' = nat (maxY r - minY r + 1) \<and>
                length (data q') = 4 * width q' * height q' \<and>
                (\<forall>x<width q'. \<forall>y<height q'. \<forall>k<4.
                   channel q' x y k = channel p (nat (minX r) + x) (nat (minY r) + y) k)"
        using qd qc by blast
      show ?thesis unfolding res' using part1 part2 part3 part4 nfl by simp
    qed
  qed
qed


lemma crop_rectangle:
  assumes wf: "wellFormed p"
    and R: "x0 \<le> x1" "x1 < width p" "y0 \<le> y1" "y1 < height p"
    and thr: "1 \<le> thr" "thr \<le> 255"
    and pat: "\<forall>x<width p. \<forall>y<height p.
               alphaOf p x y = (if x0 \<le> x \<and> x \<le> x1 \<and> y0 \<le> y \<and> y \<le> y1 then 255 else 0)"
  shows "fst (cropPngToNonTransparent thr p) =
           Some \<lparr>minX = int x0, minY = int y0, maxX = int x1, maxY = int y1,
                 fullWidth = width p, fullHeight = height p\<rparr> \<and>
         width (fileAfterCrop thr p) = x1 - x0 + 1 \<and>
         height (fileAfterCrop thr p) = y1 - y0 + 1 \<and>
         length (data (fileAfterCrop thr p)) = 4 * (x1 - x0 + 1) * (y1 - y0 + 1) \<and>
         (\<forall>x\<le>x1 - x0. \<forall>y\<le>y1 - y0. \<forall>k<4.
            channel (fileAfterCrop thr p) x y k = channel p (x0 + x) (y0 + y) k)"
proof -
  let ?w = "width p" and ?h = "height p"
  have q_iff: "(thr \<le> uint (alphaOf p x y)) = (x0 \<le> x \<and> x \<le> x1 \<and> y0 \<le> y \<and> y \<le> y1)"
    if "x < ?w" "y < ?h" for x y
  proof (cases "x0 \<le> x \<and> x \<le> x1 \<and> y0 \<le> y \<and> y \<le> y1")
    case True
    then have "alphaOf p x y = 255" using pat that by simp
    then show ?thesis using True thr by simp
  next
    case False
    then have "alphaOf p x y = 0" using pat that by simp
    then show ?thesis using False thr by simp
  qed
  have q00: "thr \<le> uint (alphaOf p x0 y0)" using q_iff [of x0 y0] R by simp
  have q11: "thr \<le> uint (alphaOf p x1 y1)" using q_iff [of x1 y1] R by simp
  obtain res wr where c: "cropPngToNonTransparent thr p = (res, wr)" by (cases "cropPngToNonTransparent thr p")
  note m = crop_main [OF wf, of thr, unfolded c]
  have "res \<noteq> None"
  proof
    assume "res = None"
    then have "\<not> thr \<le> uint (alphaOf p x0 y0)" using m R by simp
    then show False using q00 by simp
  qed
  then obtain r where res: "res = Some r" by auto
  note m' = m [unfolded res, simplified]
  have dims: "fullWidth r = ?w" "fullHeight r = ?h" using m' by simp_all
  have bnd: "0 \<le> minX r" "minX r \<le> maxX r" "maxX r < int ?w" "0 \<le> minY r" "minY r \<le> maxY r" "maxY r < int ?h"
    using m' by simp_all
  have encl: "\<And>x y. x < ?w \<Longrightarrow> y < ?h \<Longrightarrow> thr \<le> uint (alphaOf p x y) \<Longrightarrow>
      minX r \<le> int x \<and> int x \<le> maxX r \<and> minY r \<le> int y \<and> int y \<le> maxY r"
    using m' by blast
  have e0: "minX r \<le> int x0 \<and> minY r \<le> int y0" using encl [of x0 y0] q00 R by simp
  have e1: "int x1 \<le> maxX r \<and> int y1 \<le> maxY r" using encl [of x1 y1] q11 R by simp
  have ta: "\<exists>y<?h. thr \<le> uint (alphaOf p (nat (minX r)) y)" using m' by blast
  have tc: "\<exists>y<?h. thr \<le> uint (alphaOf p (nat (maxX r)) y)" using m' by blast
  have tb: "\<exists>x<?w. thr \<le> uint (alphaOf p x (nat (minY r)))" using m' by blast
  have te: "\<exists>x<?w. thr \<le> uint (alphaOf p x (nat (maxY r)))" using m' by blast
  have nx: "nat (minX r) < ?w" "nat (maxX r) < ?w" using bnd by linarith+
  have ny: "nat (minY r) < ?h" "nat (maxY r) < ?h" using bnd by linarith+
  have A: "minX r = int x0"
  proof -
    from ta obtain y where "y < ?h" "thr \<le> uint (alphaOf p (nat (minX r)) y)" by blast
    then have "x0 \<le> nat (minX r)" using q_iff [OF nx(1)] by simp
    then show ?thesis using e0 bnd by linarith
  qed
  have C: "maxX r = int x1"
  proof -
    from tc obtain y where "y < ?h" "thr \<le> uint (alphaOf p (nat (maxX r)) y)" by blast
    then have "nat (maxX r) \<le> x1" using q_iff [OF nx(2)] by simp
    then show ?thesis using e1 bnd by linarith
  qed
  have B: "minY r = int y0"
  proof -
    from tb obtain x where "x < ?w" "thr \<le> uint (alphaOf p x (nat (minY r)))" by blast
    then have "y0 \<le> nat (minY r)" using q_iff [OF _ ny(1)] by simp
    then show ?thesis using e0 bnd by linarith
  qed
  have E: "maxY r = int y1"
  proof -
    from te obtain x where "x < ?w" "thr \<le> uint (alphaOf p x (nat (maxY r)))" by blast
    then have "nat (maxY r) \<le> y1" using q_iff [OF _ ny(2)] by simp
    then show ?thesis using e1 bnd by linarith
  qed
  have r: "r = \<lparr>minX = int x0, minY = int y0, maxX = int x1, maxY = int y1,
                 fullWidth = ?w, fullHeight = ?h\<rparr>"
    using A B C E dims by simp
  have first: "fst (cropPngToNonTransparent thr p) = Some \<lparr>minX = int x0, minY = int y0,
      maxX = int x1, maxY = int y1, fullWidth = ?w, fullHeight = ?h\<rparr>"
    using c res r by simp
  have fa: "fileAfterCrop thr p = (case wr of None \<Rightarrow> p | Some q \<Rightarrow> q)"
    by (simp add: fileAfterCrop_def c)
  have cwd: "nat (maxX r - minX r + 1) = x1 - x0 + 1" "nat (maxY r - minY r + 1) = y1 - y0 + 1"
    unfolding A B C E using R by linarith+
  show ?thesis
  proof (cases "minX r = 0 \<and> minY r = 0 \<and> maxX r = int ?w - 1 \<and> maxY r = int ?h - 1")
    case True
    then have wr: "wr = None" using m' by simp
    have z: "x0 = 0" "y0 = 0" "x1 = ?w - 1" "y1 = ?h - 1" using True A B C E by linarith+
    have wh: "x1 - x0 + 1 = ?w" "y1 - y0 + 1 = ?h" using z R by linarith+
    have len: "length (data p) = 4 * ?w * ?h" using wf by (simp add: wellFormed_def)
    show ?thesis using first unfolding fa wr wh by (simp add: z(1,2) len)
  next
    case False
    then obtain q where wr: "wr = Some q"
      and qd: "width q = nat (maxX r - minX r + 1)" "height q = nat (maxY r - minY r + 1)"
              "length (data q) = 4 * width q * height q"
      and qc: "\<forall>x<width q. \<forall>y<height q. \<forall>k<4.
                   channel q x y k = channel p (nat (minX r) + x) (nat (minY r) + y) k"
      using m' by auto
    have qw: "width q = x1 - x0 + 1" "height q = y1 - y0 + 1" using qd cwd by simp_all
    have qc': "\<forall>x\<le>x1 - x0. \<forall>y\<le>y1 - y0. \<forall>k<4. channel q x y k = channel p (x0 + x) (y0 + y) k"
      using qc unfolding qw A B by (simp add: less_Suc_eq_le)
    have ql: "length (data q) = 4 * (x1 - x0 + 1) * (y1 - y0 + 1)" using qd(3) unfolding qw .
    show ?thesis unfolding fa wr option.case using first qc' ql qw by blast
  qed
qed


text \<open>
  Claim C6. For every well-formed raster \<open>p\<close> and every threshold: Content Crop
  returns \<open>null\<close> and writes nothing exactly when no pixel has an alpha at or above the
  threshold; otherwise it returns the original dimensions and a rectangle that lies
  inside the raster, encloses every qualifying pixel and has a qualifying pixel on
  each of its four sides (so it is the minimal one); when that rectangle is the
  full raster nothing is written, and otherwise the raster written has the
  rectangle's width and height and, pixel by pixel and channel by channel, the bytes
  of the rectangle in the same order. In particular, when \<open>p\<close> is fully opaque on a
  rectangle and fully transparent elsewhere (threshold between 1 and 255), the
  result is exactly that rectangle and the file holds exactly its pixels.
\<close>

theorem content_crop_correct:
  assumes "wellFormed p"
  shows "(case cropPngToNonTransparent thr p of
      (None, wr) \<Rightarrow> wr = None \<and> (\<forall>x<width p. \<forall>y<height p. \<not> thr \<le> uint (alphaOf p x y))
    | (Some r, wr) \<Rightarrow>
        fullWidth r = width p \<and> fullHeight r = height p \<and>
        0 \<le> minX r \<and> minX r \<le> maxX r \<and> maxX r < int (width p) \<and>
        0 \<le> minY r \<and> minY r \<le> maxY r \<and> maxY r < int (height p) \<and>
        (\<forall>x<width p. \<forall>y<height p. thr \<le> uint (alphaOf p x y) \<longrightarrow>
           minX r \<le> int x \<and> int x \<le> maxX r \<and> minY r \<le> int y \<and> int y \<le> maxY r) \<and>
        (\<exists>y<height p. thr \<le> uint (alphaOf p (nat (minX r)) y)) \<and>
        (\<exists>y<height p. thr \<le> uint (alphaOf p (nat (maxX r)) y)) \<and>
        (\<exists>x<width p. thr \<le> uint (alphaOf p x (nat (minY r)))) \<and>
        (\<exists>x<width p. thr \<le> uint (alphaOf p x (nat (maxY r)))) \<and>
        (if minX r = 0 \<and> minY r = 0 \<and> maxX r = int (width p) - 1 \<and> maxY r = int (height p) - 1
         then wr = None
         else \<exists>q. wr = Some q \<and>
                width q = nat (maxX r - minX r + 1) \<and> height q = nat (maxY r - minY r + 1) \<and>
                length (data q) = 4 * width q * height q \<and>
                (\<forall>x<width q. \<forall>y<height q. \<forall>k<4.
                   channel q x y k = channel p (nat (minX r) + x) (nat (minY r) + y) k))) \<and>
    (\<forall>x0 x1 y0 y1.
       x0 \<le> x1 \<and> x1 < width p \<and> y0 \<le> y1 \<and> y1 < height p \<and> 1 \<le> thr \<and> thr \<le> 255 \<and>
       (\<forall>x<width p. \<forall>y<height p.
          alphaOf p x y = (if x0 \<le> x \<and> x \<le> x1 \<and> y0 \<le> y \<and> y \<le> y1 then 255 else 0)) \<longrightarrow>
       fst (cropPngToNonTransparent thr p) =
         Some \<lparr>minX = int x0, minY = int y0, maxX = int x1, maxY = int y1,
               fullWidth = width p, fullHeight = height p\<rparr> \<and>
       width (fileAfterCrop thr p) = x1 - x0 + 1 \<and>
       height (fileAfterCrop thr p) = y1 - y0 + 1 \<and>
       length (data (fileAfterCrop thr p)) = 4 * (x1 - x0 + 1) * (y1 - y0 + 1) \<and>
       (\<forall>x\<le>x1 - x0. \<forall>y\<le>y1 - y0. \<forall>k<4.
          channel (fileAfterCrop thr p) x y k = channel p (x0 + x) (y0 + y) k))"
proof -
  have main: "case cropPngToNonTransparent thr p of
      (None, wr) \<Rightarrow> wr = None \<and> (\<forall>x<width p. \<forall>y<height p. \<not> thr \<le> uint (alphaOf p x y))
    | (Some r, wr) \<Rightarrow>
        fullWidth r = width p \<and> fullHeight r = height p \<and>
        0 \<le> minX r \<and> minX r \<le> maxX r \<and> maxX r < int (width p) \<and>
        0 \<le> minY r \<and> minY r \<le> maxY r \<and> maxY r < int (height p) \<and>
        (\<forall>x<width p. \<forall>y<height p. thr \<le> uint (alphaOf p x y) \<longrightarrow>
           minX r \<le> int x \<and> int x \<le> maxX r \<and> minY r \<le> int y \<and> int y \<le> maxY r) \<and>
        (\<exists>y<height p. thr \<le> uint (alphaOf p (nat (minX r)) y)) \<and>
        (\<exists>y<height p. thr \<le> uint (alphaOf p (nat (maxX r)) y)) \<and>
        (\<exists>x<width p. thr \<le> uint (alphaOf p x (nat (minY r)))) \<and>
        (\<exists>x<width p. thr \<le> uint (alphaOf p x (nat (maxY r)))) \<and>
        (if minX r = 0 \<and> minY r = 0 \<and> maxX r = int (width p) - 1 \<and> maxY r = int (height p) - 1
         then wr = None
         else \<exists>q. wr = Some q \<and>
                width q = nat (maxX r - minX r + 1) \<and> height q = nat (maxY r - minY r + 1) \<and>
                length (data q) = 4 * width q * height q \<and>
                (\<forall>x<width q. \<forall>y<height q. \<forall>k<4.
                   channel q x y k = channel p (nat (minX r) + x) (nat (minY r) + y) k))"
    using assms by (rule crop_main)
  have rect: "fst (cropPngToNonTransparent thr p) =
         Some \<lparr>minX = int x0, minY = int y0, maxX = int x1, maxY = int y1,
               fullWidth = width p, fullHeight = height p\<rparr> \<and>
       width (fileAfterCrop thr p) = x1 - x0 + 1 \<and>
       height (fileAfterCrop thr p) = y1 - y0 + 1 \<and>
       length (data (fileAfterCrop thr p)) = 4 * (x1 - x0 + 1) * (y1 - y0 + 1) \<and>
       (\<forall>x\<le>x1 - x0. \<forall>y\<le>y1 - y0. \<forall>k<4.
          channel (fileAfterCrop thr p) x y k = channel p (x0 + x) (y0 + y) k)"
    if h: "x0 \<le> x1 \<and> x1 < width p \<and> y0 \<le> y1 \<and> y1 < height p \<and> 1 \<le> thr \<and> thr \<le> 255 \<and>
       (\<forall>x<width p. \<forall>y<height p.
          alphaOf p x y = (if x0 \<le> x \<and> x \<le> x1 \<and> y0 \<le> y \<and> y \<le> y1 then 255 else 0))"
    for x0 x1 y0 y1
    using assms h by (intro crop_rectangle) blast+
  show ?thesis using main rect by blast
qed

text \<open>The block raster is opaque exactly on the columns 1 and 2 of row 1: the crop
  returns that rectangle and leaves the two pixels of the block in the file.\<close>

theorem content_crop_correct_witness:
  "wellFormed blockRaster \<and>
   fst (cropPngToNonTransparent 1 blockRaster) =
     Some \<lparr>minX = 1, minY = 1, maxX = 2, maxY = 1, fullWidth = 3, fullHeight = 2\<rparr> \<and>
   width (fileAfterCrop 1 blockRaster) = 2 \<and>
   height (fileAfterCrop 1 blockRaster) = 1 \<and>
   data (fileAfterCrop 1 blockRaster) = [13, 14, 15, 255,  16, 17, 18, 255]"
proof -
  have wf: "wellFormed blockRaster"
    by (simp add: wellFormed_def blockRaster_def)
  have wh: "width blockRaster = 3" "height blockRaster = 2"
    by (simp_all add: blockRaster_def)
  have pat: "alphaOf blockRaster x y = (if 1 \<le> x \<and> x \<le> 2 \<and> 1 \<le> y \<and> y \<le> 1 then 255 else 0)"
    if "x < 3" "y < 2" for x y
  proof -
    have "x = 0 \<or> x = 1 \<or> x = 2" and "y = 0 \<or> y = 1" using that by arith+
    then show ?thesis
      by (elim disjE) (simp_all add: alphaOf_def blockRaster_def)
  qed
  have hyp: "(1::nat) \<le> 2 \<and> 2 < width blockRaster \<and> (1::nat) \<le> 1 \<and> 1 < height blockRaster \<and>
       (1::int) \<le> 1 \<and> (1::int) \<le> 255 \<and>
       (\<forall>x<width blockRaster. \<forall>y<height blockRaster.
          alphaOf blockRaster x y = (if 1 \<le> x \<and> x \<le> 2 \<and> 1 \<le> y \<and> y \<le> 1 then 255 else 0))"
    using pat by (simp add: wh)
  have d: "data (fileAfterCrop 1 blockRaster) = [13, 14, 15, 255,  16, 17, 18, 255]"
    by code_simp
  from content_crop_correct [OF wf, of 1]
  have "\<forall>x0 x1 y0 y1.
       x0 \<le> x1 \<and> x1 < width blockRaster \<and> y0 \<le> y1 \<and> y1 < height blockRaster \<and> (1::int) \<le> 1 \<and> (1::int) \<le> 255 \<and>
       (\<forall>x<width blockRaster. \<forall>y<height blockRaster.
          alphaOf blockRaster x y = (if x0 \<le> x \<and> x \<le> x1 \<and> y0 \<le> y \<and> y \<le> y1 then 255 else 0)) \<longrightarrow>
       fst (cropPngToNonTransparent 1 blockRaster) =
         Some \<lparr>minX = int x0, minY = int y0, maxX = int x1, maxY = int y1,
               fullWidth = width blockRaster, fullHeight = height blockRaster\<rparr> \<and>
       width (fileAfterCrop 1 blockRaster) = x1 - x0 + 1 \<and>
       height (fileAfterCrop 1 blockRaster) = y1 - y0 + 1 \<and>
       length (data (fileAfterCrop 1 blockRaster)) = 4 * (x1 - x0 + 1) * (y1 - y0 + 1) \<and>
       (\<forall>x\<le>x1 - x0. \<forall>y\<le>y1 - y0. \<forall>k<4.
          channel (fileAfterCrop 1 blockRaster) x y k = channel blockRaster (x0 + x) (y0 + y) k)"
    by (rule conjunct2)
  then have "fst (cropPngToNonTransparent 1 blockRaster) =
         Some \<lparr>minX = int 1, minY = int 1, maxX = int 2, maxY = int 1,
               fullWidth = width blockRaster, fullHeight = height blockRaster\<rparr> \<and>
       width (fileAfterCrop 1 blockRaster) = 2 - 1 + 1 \<and>
       height (fileAfterCrop 1 blockRaster) = 1 - 1 + 1"
    using hyp by blast
  then show ?thesis using wf d by (simp add: wh)
qed

section \<open>Request parameter normalisation: results\<close>

lemma pad_hour_labels_all:
  "list_all (\<lambda>k. padStart 2 (CHR ''0'') (natToString k) \<in> set hourLabels) [8..<16]"
  by code_simp

lemma pad_hour_label:
  assumes "8 \<le> n" "n \<le> 15"
  shows "padStart 2 (CHR ''0'') (natToString n) \<in> set hourLabels"
proof -
  have "8 \<le> n \<and> n < 16" using assms by linarith
  then have "n \<in> set [8..<16]" by (simp only: set_upt atLeastLessThan_iff)
  then show ?thesis using pad_hour_labels_all unfolding list_all_iff by blast
qed

lemma normalizeVarParam_iff:
  "normalizeVarParam v = Some s \<longleftrightarrow>
     (\<exists>raw. v = Some raw \<and> s = toUpperCase (trim raw) \<and> s \<in> set allowedVars)"
proof (cases v)
  case None
  then show ?thesis by (simp add: normalizeVarParam_def)
next
  case (Some raw)
  have e: "toUpperCase (trim []) \<notin> set allowedVars"
    by (simp add: toUpperCase_def trim_def allowedVars_def)
  show ?thesis
    using Some e by (cases "raw = []") (auto simp: normalizeVarParam_def Let_def)
qed

lemma normalizeHourParam_iff:
  "normalizeHourParam h = Some r \<longleftrightarrow>
     (\<exists>raw. h = Some raw \<and>
        oneOrTwoDigits (stripTrailingH (toUpperCase (trim raw))) \<and>
        8 \<le> numberOfDigits (stripTrailingH (toUpperCase (trim raw))) \<and>
        numberOfDigits (stripTrailingH (toUpperCase (trim raw))) \<le> 15 \<and>
        r = padStart 2 (CHR ''0'') (natToString (numberOfDigits (stripTrailingH (toUpperCase (trim raw))))))"
proof (cases h)
  case None
  then show ?thesis by (simp add: normalizeHourParam_def)
next
  case (Some raw)
  have e: "\<not> oneOrTwoDigits (stripTrailingH (toUpperCase (trim [])))"
    by (simp add: toUpperCase_def trim_def stripTrailingH_def oneOrTwoDigits_def)
  show ?thesis
    using Some e by (cases "raw = []") (auto simp: normalizeHourParam_def Let_def)
qed

lemma upperChar_white: "isWhiteSpace (upperChar c) = isWhiteSpace c"
  by (auto simp: upperChar_def isWhiteSpace_def split: option.splits if_splits)

lemma allowed_no_white: "x \<in> set allowedVars \<Longrightarrow> c \<in> set x \<Longrightarrow> \<not> isWhiteSpace c"
  by (auto simp: allowedVars_def isWhiteSpace_def)

lemma allowed_nonempty: "x \<in> set allowedVars \<Longrightarrow> x \<noteq> []"
  by (auto simp: allowedVars_def)

lemma dropWhile_none: "\<forall>c \<in> set xs. \<not> P c \<Longrightarrow> dropWhile P xs = xs"
  by (cases xs) simp_all

lemma trim_no_white:
  assumes "\<forall>c \<in> set s. \<not> isWhiteSpace c"
  shows "trim s = s"
proof -
  have "dropWhile isWhiteSpace s = s" using assms by (rule dropWhile_none)
  moreover have "dropWhile isWhiteSpace (rev s) = rev s"
    using assms by (intro dropWhile_none) simp
  ultimately show ?thesis by (simp add: trim_def)
qed

lemma any_casing_accepted:
  assumes "toUpperCase raw \<in> set allowedVars"
  shows "normalizeVarParam (Some raw) = Some (toUpperCase raw)"
proof -
  have "\<not> isWhiteSpace c" if "c \<in> set raw" for c
  proof -
    have "upperChar c \<in> set (toUpperCase raw)" using that by (simp add: toUpperCase_def)
    then have "\<not> isWhiteSpace (upperChar c)" using assms allowed_no_white by blast
    then show ?thesis by (simp add: upperChar_white)
  qed
  then have t: "trim raw = raw" by (intro trim_no_white) blast
  have "raw \<noteq> []" using assms allowed_nonempty by (auto simp: toUpperCase_def)
  then show ?thesis using assms t by (simp add: normalizeVarParam_def)
qed


text \<open>
  Claim C9, as amended. The variable parameter is trimmed and uppercased and is
  accepted exactly when the result belongs to the six allowed names, so that any
  casing of an allowed name is accepted; an absent or invalid value falls back to the
  configured default. The hour parameter is trimmed and uppercased, one trailing
  \<open>H\<close> (so also a trailing \<open>h\<close> of the input) is stripped, and it is accepted exactly
  when what is left is one or two digits denoting a number from 8 to 15; the result is
  that number zero-padded to two digits, one of \<open>08\<close> to \<open>15\<close>. Every other value
  is treated as absent. The cache key is the resolved variable, an underscore, and the
  hour label followed by \<open>H\<close> or the word \<open>default\<close>.
\<close>

theorem request_normalisation:
  "(normalizeVarParam v = Some s \<longleftrightarrow>
      (\<exists>raw. v = Some raw \<and> s = toUpperCase (trim raw) \<and> s \<in> set allowedVars)) \<and>
   (toUpperCase raw' \<in> set allowedVars \<longrightarrow>
      normalizeVarParam (Some raw') = Some (toUpperCase raw')) \<and>
   resolveVar d v \<in> set allowedVars \<union> {d} \<and>
   (normalizeVarParam v = None \<longrightarrow> resolveVar d v = d) \<and>
   (normalizeHourParam h = Some r \<longleftrightarrow>
      (\<exists>raw. h = Some raw \<and>
         oneOrTwoDigits (stripTrailingH (toUpperCase (trim raw))) \<and>
         8 \<le> numberOfDigits (stripTrailingH (toUpperCase (trim raw))) \<and>
         numberOfDigits (stripTrailingH (toUpperCase (trim raw))) \<le> 15 \<and>
         r = padStart 2 (CHR ''0'')
               (natToString (numberOfDigits (stripTrailingH (toUpperCase (trim raw))))))) \<and>
   (normalizeHourParam h = Some r \<longrightarrow> r \<in> set hourLabels) \<and>
   requestKey d v h =
     resolveVar d v @ ''_'' @
       (case normalizeHourParam h of Some hh \<Rightarrow> hh @ ''H'' | None \<Rightarrow> ''default'')"
proof -
  have rv: "resolveVar d v \<in> set allowedVars \<union> {d}"
  proof (cases "normalizeVarParam v")
    case None
    then show ?thesis by (simp add: resolveVar_def)
  next
    case (Some t)
    then have "t \<in> set allowedVars" using normalizeVarParam_iff [of v t] by blast
    then show ?thesis using Some by (simp add: resolveVar_def)
  qed
  have rn: "normalizeVarParam v = None \<longrightarrow> resolveVar d v = d"
    by (simp add: resolveVar_def)
  have hl: "normalizeHourParam h = Some r \<longrightarrow> r \<in> set hourLabels"
    using normalizeHourParam_iff [of h r] pad_hour_label by blast
  have key: "requestKey d v h =
     resolveVar d v @ ''_'' @
       (case normalizeHourParam h of Some hh \<Rightarrow> hh @ ''H'' | None \<Rightarrow> ''default'')"
    by (simp add: requestKey_def timeKeyOf_def)
  show ?thesis
    using normalizeVarParam_iff [of v s] any_casing_accepted [of raw'] rv rn
      normalizeHourParam_iff [of h r] hl key
    by blast
qed

theorem request_normalisation_witness:
  "normalizeVarParam (Some '' LcDc'') = Some ''LCDC'' \<and>
   toUpperCase ''LcDc'' \<in> set allowedVars \<and>
   normalizeVarParam (Some ''LcDc'') = Some ''LCDC'' \<and>
   normalizeVarParam (Some ''rain'') = None \<and>
   resolveVar ''RPRATE'' (Some ''rain'') = ''RPRATE'' \<and>
   normalizeHourParam (Some '' 9h '') = Some ''09'' \<and>
   ''09'' \<in> set hourLabels \<and>
   requestKey ''RPRATE'' (Some '' LcDc'') (Some '' 9h '') = ''LCDC_09H''"
proof -
  have a: "normalizeVarParam (Some '' LcDc'') = Some ''LCDC''" by code_simp
  have b: "toUpperCase ''LcDc'' = ''LCDC''" by code_simp
  have c: "''LCDC'' \<in> set allowedVars" by (simp add: allowedVars_def)
  have e: "normalizeVarParam (Some ''rain'') = None" by code_simp
  have f: "normalizeHourParam (Some '' 9h '') = Some ''09''" by code_simp
  have g: "resolveVar ''RPRATE'' (Some '' LcDc'') = ''LCDC''" by code_simp
  show ?thesis
    using request_normalisation [of "Some ''rain''" "''LCDC''" "''LcDc''" "''RPRATE''"
        "Some '' 9h ''" "''09''"]
      request_normalisation [of "Some '' LcDc''" "''LCDC''" "''LcDc''" "''RPRATE''"
        "Some '' 9h ''" "''09''"]
      a b c e f g
    by simp
qed

text \<open>The claim as worded (the hour is trimmed and a trailing \<open>H\<close> stripped; the
  variable is uppercased and looked up) fails at the hour \<open>8h\<close>, which the code accepts
  as \<open>08\<close> because it uppercases first, and at the variable \<open>cape\<close> with a leading
  space, which the code accepts because it trims first.\<close>

theorem request_normalisation_as_worded_fails:
  "normalizeHourParam (Some ''8h'') = Some ''08'' \<and>
   spec_normalizeHour (Some ''8h'') = None \<and>
   normalizeVarParam (Some '' cape'') = Some ''CAPE'' \<and>
   spec_normalizeVar (Some '' cape'') = None"
proof -
  have a: "normalizeHourParam (Some ''8h'') = Some ''08''" by code_simp
  have b: "spec_normalizeHour (Some ''8h'') = None" by code_simp
  have c: "normalizeVarParam (Some '' cape'') = Some ''CAPE''" by code_simp
  have d: "spec_normalizeVar (Some '' cape'') = None" by code_simp
  show ?thesis using a b c d by simp
qed

section \<open>Geo-bounds resolver: the formulas\<close>

text \<open>
  Claim C5. For every geotransform \<open>(x0, pxW, _, y0, _, pxH)\<close> (with any further
  elements) and every inclusive crop rectangle: the transform counts as geographic
  exactly when \<open>|x0| \<le> 360\<close>, \<open>|y0| \<le> 180\<close> and both pixel sizes have an absolute value
  in \<open>(0, 5]\<close>; the extent is \<open>minX = x0 + minCol * pxW\<close>,
  \<open>maxX = x0 + (maxCol + 1) * pxW\<close>, \<open>maxY = y0 + minRow * pxH\<close>,
  \<open>minY = y0 + (maxRow + 1) * pxH\<close>; the bounds are the per-axis minimum and maximum
  of the extent when the transform is geographic, and otherwise those of the two
  corners \<open>(minX, minY)\<close> and \<open>(maxX, maxY)\<close> taken through the inverse spherical
  Mercator projection with \<open>R = 6378137\<close>.
\<close>

theorem geo_bounds_resolver:
  "geotransformLooksGeographic (x0 # pxW # r1 # y0 # r2 # pxH # rest) =
     (\<bar>x0\<bar> \<le> 360 \<and> \<bar>y0\<bar> \<le> 180 \<and> 0 < \<bar>pxW\<bar> \<and> \<bar>pxW\<bar> \<le> 5 \<and> 0 < \<bar>pxH\<bar> \<and> \<bar>pxH\<bar> \<le> 5) \<and>
   boundsOfCrop (x0 # pxW # r1 # y0 # r2 # pxH # rest)
       \<lparr>minX = minCol, minY = minRow, maxX = maxCol, maxY = maxRow, fullWidth = w, fullHeight = h\<rparr> =
     (let mnX = x0 + of_int minCol * pxW;
          mxX = x0 + (of_int maxCol + 1) * pxW;
          mxY = y0 + of_int minRow * pxH;
          mnY = y0 + (of_int maxRow + 1) * pxH
      in if \<bar>x0\<bar> \<le> 360 \<and> \<bar>y0\<bar> \<le> 180 \<and> 0 < \<bar>pxW\<bar> \<and> \<bar>pxW\<bar> \<le> 5 \<and> 0 < \<bar>pxH\<bar> \<and> \<bar>pxH\<bar> \<le> 5
         then ((min mnY mxY, min mnX mxX), (max mnY mxY, max mnX mxX))
         else
           let lon1 = mnX / 6378137 * (180 / pi);
               lat1 = (2 * arctan (exp (mnY / 6378137)) - pi / 2) * (180 / pi);
               lon2 = mxX / 6378137 * (180 / pi);
               lat2 = (2 * arctan (exp (mxY / 6378137)) - pi / 2) * (180 / pi)
           in ((min lat1 lat2, min lon1 lon2), (max lat1 lat2, max lon1 lon2)))"
proof -
  have g: "geotransformLooksGeographic (x0 # pxW # r1 # y0 # r2 # pxH # rest) =
     (\<bar>x0\<bar> \<le> 360 \<and> \<bar>y0\<bar> \<le> 180 \<and> 0 < \<bar>pxW\<bar> \<and> \<bar>pxW\<bar> \<le> 5 \<and> 0 < \<bar>pxH\<bar> \<and> \<bar>pxH\<bar> \<le> 5)"
    by (simp add: geotransformLooksGeographic_def)
  show ?thesis
    unfolding g boundsOfCrop_def mercatorToLonLat_def Let_def
    by simp
qed


text \<open>A geographic grid with origin \<open>(-5, 51)\<close> and pixels of one degree: the rectangle
  of the columns 1 to 2 of row 1 lies between 49 and 50 degrees north and between 4
  and 2 degrees west.\<close>

theorem geo_bounds_resolver_witness:
  "geotransformLooksGeographic [- 5, 1, 0, 51, 0, - 1] \<and>
   boundsOfCrop [- 5, 1, 0, 51, 0, - 1]
     \<lparr>minX = 1, minY = 1, maxX = 2, maxY = 1, fullWidth = 4, fullHeight = 3\<rparr> =
   ((49, - 4), (50, - 2))"
  using geo_bounds_resolver [of "- 5" 1 0 51 0 "- 1" "[]" 1 1 2 1 4 3]
  by (simp add: Let_def)

section \<open>Conversion pipeline: the candidate loop\<close>

lemma tryCandidate_matchExpr:
  assumes "snd (tryCandidate cfg tc paths g m) = Inr res"
  shows "resMatchExpr res = m"
  using assms
  by (auto simp: tryCandidate_def postProcess_def Let_def
      split: option.splits sum.splits prod.splits if_splits)

lemma candidateError_Some:
  "candidateError cfg tc paths g m = Some e \<longleftrightarrow> snd (tryCandidate cfg tc paths g m) = Inl e"
  by (simp add: candidateError_def split: sum.splits)

lemma candidateError_None:
  "candidateError cfg tc paths g m = None \<longleftrightarrow> (\<exists>res. snd (tryCandidate cfg tc paths g m) = Inr res)"
  by (simp add: candidateError_def split: sum.splits)

lemma loop_all_fail:
  assumes "\<forall>x \<in> set ms. candidateError cfg tc paths g x \<noteq> None"
  shows "fst (candidateLoop cfg tc paths g ms lastErr) = ms \<and>
         snd (snd (candidateLoop cfg tc paths g ms lastErr)) =
           Inl (if ms = [] then lastErr else candidateError cfg tc paths g (last ms))"
  using assms
proof (induction ms arbitrary: lastErr)
  case Nil
  then show ?case by simp
next
  case (Cons m ms)
  from Cons.prems obtain e where e: "candidateError cfg tc paths g m = Some e" by auto
  then have t: "snd (tryCandidate cfg tc paths g m) = Inl e" by (simp add: candidateError_Some)
  then obtain ops where tc: "tryCandidate cfg tc paths g m = (ops, Inl e)"
    by (cases "tryCandidate cfg tc paths g m") simp
  have ih: "fst (candidateLoop cfg tc paths g ms (Some e)) = ms \<and>
         snd (snd (candidateLoop cfg tc paths g ms (Some e))) =
           Inl (if ms = [] then Some e else candidateError cfg tc paths g (last ms))"
    using Cons.IH Cons.prems by simp
  obtain tr ops' r where l: "candidateLoop cfg tc paths g ms (Some e) = (tr, ops', r)"
    by (metis prod_cases3)
  show ?case using tc l ih e by (auto)
qed

lemma loop_first_success:
  assumes "\<forall>x \<in> set pre. candidateError cfg tc paths g x \<noteq> None"
    and "snd (tryCandidate cfg tc paths g m) = Inr res"
  shows "fst (candidateLoop cfg tc paths g (pre @ m # post) lastErr) = pre @ [m] \<and>
         snd (snd (candidateLoop cfg tc paths g (pre @ m # post) lastErr)) = Inr res"
  using assms(1)
proof (induction pre arbitrary: lastErr)
  case Nil
  obtain ops where "tryCandidate cfg tc paths g m = (ops, Inr res)"
    using assms(2) by (cases "tryCandidate cfg tc paths g m") simp
  then show ?case by simp
next
  case (Cons x pre)
  from Cons.prems obtain e where e: "candidateError cfg tc paths g x = Some e" by auto
  then have "snd (tryCandidate cfg tc paths g x) = Inl e" by (simp add: candidateError_Some)
  then obtain ops where tc: "tryCandidate cfg tc paths g x = (ops, Inl e)"
    by (cases "tryCandidate cfg tc paths g x") simp
  have ih: "fst (candidateLoop cfg tc paths g (pre @ m # post) (Some e)) = pre @ [m] \<and>
         snd (snd (candidateLoop cfg tc paths g (pre @ m # post) (Some e))) = Inr res"
    using Cons.IH Cons.prems by simp
  obtain tr ops' r where l: "candidateLoop cfg tc paths g (pre @ m # post) (Some e) = (tr, ops', r)"
    by (metis prod_cases3)
  show ?case using tc l ih by auto
qed

lemma length_errorDetails: "length (errorDetails e) \<le> 600"
  by (simp add: errorDetails_def)

lemma convert_run:
  assumes "paletteExists tc"
  shows "attempted (convertGribToPngViaPipeline cfg tc g matchExprs paths) =
           fst (candidateLoop cfg tc paths g (if matchExprs \<noteq> [] then matchExprs else gribMatches cfg) None) \<and>
         outcome (convertGribToPngViaPipeline cfg tc g matchExprs paths) =
           (case snd (snd (candidateLoop cfg tc paths g (if matchExprs \<noteq> [] then matchExprs else gribMatches cfg) None)) of
              Inr res \<Rightarrow> Inr res
            | Inl lastErr \<Rightarrow> Inl (mkError (noFieldMessage (if matchExprs \<noteq> [] then matchExprs else gribMatches cfg) lastErr)))"
  using assms
  by (simp add: convertGribToPngViaPipeline_def Let_def split: prod.splits sum.splits)



text \<open>
  Claim C4. For every configuration, toolchain, source file, candidate list and
  paths, with \<open>matches\<close> the candidate list or, when that is empty, the configured
  fallback list: if the palette file is absent the pipeline throws at once, with no
  expression tried and no file touched. Otherwise, if \<open>m\<close> is the first expression of
  \<open>matches\<close> whose steps all succeed, the pipeline has tried exactly the expressions up
  to and including \<open>m\<close>, in order, and returns the result of that attempt, whose
  matched expression is \<open>m\<close>; and if every expression fails it has tried all of
  \<open>matches\<close> and throws one error whose message lists them, joined by commas, and
  ends with the text of the last attempt's error, white space collapsed and cut to
  600 characters.
\<close>

theorem pipeline_candidates:
  "(\<not> paletteExists tc \<longrightarrow>
      outcome (convertGribToPngViaPipeline cfg tc g matchExprs paths) =
        Inl (mkError (''Palette manquante: '' @ dataPalette cfg)) \<and>
      attempted (convertGribToPngViaPipeline cfg tc g matchExprs paths) = [] \<and>
      fsLog (convertGribToPngViaPipeline cfg tc g matchExprs paths) = []) \<and>
   (paletteExists tc \<and>
    (if matchExprs \<noteq> [] then matchExprs else gribMatches cfg) = pre @ m # post \<and>
    (\<forall>x \<in> set pre. candidateError cfg tc paths g x \<noteq> None) \<and>
    candidateError cfg tc paths g m = None \<longrightarrow>
      attempted (convertGribToPngViaPipeline cfg tc g matchExprs paths) = pre @ [m] \<and>
      (\<exists>res. outcome (convertGribToPngViaPipeline cfg tc g matchExprs paths) = Inr res \<and>
             snd (tryCandidate cfg tc paths g m) = Inr res \<and> resMatchExpr res = m)) \<and>
   (paletteExists tc \<and>
    (\<forall>x \<in> set (if matchExprs \<noteq> [] then matchExprs else gribMatches cfg).
        candidateError cfg tc paths g x \<noteq> None) \<longrightarrow>
      attempted (convertGribToPngViaPipeline cfg tc g matchExprs paths) =
        (if matchExprs \<noteq> [] then matchExprs else gribMatches cfg) \<and>
      (\<exists>lastErr.
         lastErr = (if (if matchExprs \<noteq> [] then matchExprs else gribMatches cfg) = [] then None
                    else candidateError cfg tc paths g
                           (last (if matchExprs \<noteq> [] then matchExprs else gribMatches cfg))) \<and>
         outcome (convertGribToPngViaPipeline cfg tc g matchExprs paths) =
           Inl (mkError
                 (''Aucun champ trouv'' @ [CHR 0xE9] @ '' via -match. Tent'' @ [CHR 0xE9] @ ''s: '' @
                  joinWith '', '' (if matchExprs \<noteq> [] then matchExprs else gribMatches cfg) @
                  ''. Derni'' @ [CHR 0xE8] @ ''re erreur: '' @
                  take 600 (collapseWhitespace (errorText lastErr)))))) \<and>
   length (take 600 (collapseWhitespace (errorText e))) \<le> 600"
proof (intro conjI impI)
  assume "\<not> paletteExists tc"
  then show "outcome (convertGribToPngViaPipeline cfg tc g matchExprs paths) =
        Inl (mkError (''Palette manquante: '' @ dataPalette cfg))"
    and "attempted (convertGribToPngViaPipeline cfg tc g matchExprs paths) = []"
    and "fsLog (convertGribToPngViaPipeline cfg tc g matchExprs paths) = []"
    by (simp_all add: convertGribToPngViaPipeline_def)
next
  let ?ms = "if matchExprs \<noteq> [] then matchExprs else gribMatches cfg"
  assume h: "paletteExists tc \<and> ?ms = pre @ m # post \<and>
    (\<forall>x \<in> set pre. candidateError cfg tc paths g x \<noteq> None) \<and>
    candidateError cfg tc paths g m = None"
  then obtain res where res: "snd (tryCandidate cfg tc paths g m) = Inr res"
    using candidateError_None by blast
  have l: "fst (candidateLoop cfg tc paths g (pre @ m # post) None) = pre @ [m] \<and>
         snd (snd (candidateLoop cfg tc paths g (pre @ m # post) None)) = Inr res"
    using h res by (intro loop_first_success) blast+
  have ms: "?ms = pre @ m # post" using h by blast
  note cr = convert_run [of tc cfg g matchExprs paths, unfolded ms]
  show "attempted (convertGribToPngViaPipeline cfg tc g matchExprs paths) = pre @ [m]"
    using cr h l by simp
  have "outcome (convertGribToPngViaPipeline cfg tc g matchExprs paths) = Inr res"
    using cr h l by simp
  then show "\<exists>res. outcome (convertGribToPngViaPipeline cfg tc g matchExprs paths) = Inr res \<and>
             snd (tryCandidate cfg tc paths g m) = Inr res \<and> resMatchExpr res = m"
    using res tryCandidate_matchExpr by blast
next
  let ?ms = "if matchExprs \<noteq> [] then matchExprs else gribMatches cfg"
  assume h: "paletteExists tc \<and> (\<forall>x \<in> set ?ms. candidateError cfg tc paths g x \<noteq> None)"
  define lastErr where "lastErr = (if ?ms = [] then None else candidateError cfg tc paths g (last ?ms))"
  have l: "fst (candidateLoop cfg tc paths g ?ms None) = ?ms \<and>
         snd (snd (candidateLoop cfg tc paths g ?ms None)) = Inl lastErr"
    unfolding lastErr_def using h by (intro loop_all_fail) blast
  note cr = convert_run [of tc cfg g matchExprs paths]
  show "attempted (convertGribToPngViaPipeline cfg tc g matchExprs paths) = ?ms"
    using cr h l by simp
  have "outcome (convertGribToPngViaPipeline cfg tc g matchExprs paths) =
          Inl (mkError (noFieldMessage ?ms lastErr))"
    using cr h l by simp
  then show "\<exists>lastErr.
         lastErr = (if ?ms = [] then None else candidateError cfg tc paths g (last ?ms)) \<and>
         outcome (convertGribToPngViaPipeline cfg tc g matchExprs paths) =
           Inl (mkError
                 (''Aucun champ trouv'' @ [CHR 0xE9] @ '' via -match. Tent'' @ [CHR 0xE9] @ ''s: '' @
                  joinWith '', '' ?ms @
                  ''. Derni'' @ [CHR 0xE8] @ ''re erreur: '' @
                  take 600 (collapseWhitespace (errorText lastErr))))"
    unfolding noFieldMessage_def errorDetails_def lastErr_def by blast
next
  show "length (take 600 (collapseWhitespace (errorText e))) \<le> 600" by simp
qed


text \<open>Concrete runs: with the palette present, \<open>:RPRATE:\<close> failing and \<open>:PRATE:\<close>
  succeeding, the third candidate is never tried; with every extraction failing the
  diagnostic lists the three expressions and the collapsed \<open>stderr\<close> of the last one;
  without the palette nothing is tried.\<close>

lemmas pipeline_unfold = tryCandidate_def extractAndRender_def
  postProcess_def ensureNonEmptyFile_def atomicReplaceFile_def candidateError_def

lemma framed_masked:
  "borderTransparencyWrite 10 framedRaster =
     Some \<lparr>width = 4, height = 3,
      data = [200, 200, 200, 0,  200, 200, 200, 0,  200, 200, 200, 0,  200, 200, 200, 0,
              200, 200, 200, 0,  255, 0, 0, 255,      250, 0, 0, 255,      200, 200, 200, 0,
              200, 200, 200, 0,  200, 200, 200, 0,  200, 200, 200, 0,  200, 200, 200, 0]\<rparr>"
  by code_simp

lemma framed_cropped:
  "cropPngToNonTransparent 1 (makeDominantBorderColorTransparent 10 framedRaster) =
     (Some \<lparr>minX = 1, minY = 1, maxX = 2, maxY = 1, fullWidth = 4, fullHeight = 3\<rparr>,
      Some \<lparr>width = 2, height = 1, data = [255, 0, 0, 255,  250, 0, 0, 255]\<rparr>)"
  by code_simp

lemma second_choice_first: "candidateError exampleConfig secondChoiceTools examplePaths ''data/08H.grib2'' '':RPRATE:'' = Some noMatchError"
  by (simp add: pipeline_unfold secondChoiceTools_def)

lemma second_choice_second:
  "tryCandidate exampleConfig secondChoiceTools examplePaths ''data/08H.grib2'' '':PRATE:'' =
     ([Unlink ''cache/rprate_08H.nc'', WriteFile ''cache/rprate_08H_color.tmp.png'',
       WriteFile ''cache/rprate_08H_color.tmp.png'', Unlink ''cache/rprate_08H_color.png'',
       Rename ''cache/rprate_08H_color.tmp.png'' ''cache/rprate_08H_color.png''],
      Inr \<lparr>resBounds = boundsOfCrop [- 5, 1, 0, 51, 0, - 1]
                         \<lparr>minX = 1, minY = 1, maxX = 2, maxY = 1, fullWidth = 4, fullHeight = 3\<rparr>,
           resMatchExpr = '':PRATE:''\<rparr>)"
  by (simp add: pipeline_unfold secondChoiceTools_def exampleConfig_def examplePaths_def
      framed_masked framed_cropped)


lemma failing_any: "candidateError exampleConfig failingTools examplePaths ''data/08H.grib2'' x = Some noMatchError"
  by (simp add: pipeline_unfold failingTools_def)

lemma noMatch_details: "take 600 (collapseWhitespace (errorText (Some noMatchError))) = ''no matching field''"
  by (simp add: errorText_def noMatchError_def isWhiteSpace_def)

theorem pipeline_candidates_witness:
  "attempted (convertGribToPngViaPipeline exampleConfig secondChoiceTools ''data/08H.grib2''
      exampleExprs examplePaths) = ['':RPRATE:'', '':PRATE:''] \<and>
   (\<exists>res. outcome (convertGribToPngViaPipeline exampleConfig secondChoiceTools ''data/08H.grib2''
      exampleExprs examplePaths) = Inr res \<and> resMatchExpr res = '':PRATE:'') \<and>
   attempted (convertGribToPngViaPipeline exampleConfig failingTools ''data/08H.grib2''
      exampleExprs examplePaths) = ['':RPRATE:'', '':PRATE:'', '':APCP:''] \<and>
   outcome (convertGribToPngViaPipeline exampleConfig failingTools ''data/08H.grib2''
      exampleExprs examplePaths) =
     Inl (mkError (''Aucun champ trouv'' @ [CHR 0xE9] @ '' via -match. Tent'' @ [CHR 0xE9] @
                   ''s: :RPRATE:, :PRATE:, :APCP:. Derni'' @ [CHR 0xE8] @
                   ''re erreur: no matching field'')) \<and>
   outcome (convertGribToPngViaPipeline exampleConfig (failingTools\<lparr>paletteExists := False\<rparr>)
      ''data/08H.grib2'' exampleExprs examplePaths) =
     Inl (mkError ''Palette manquante: data/palette.txt'')"
proof -
  have p1: "paletteExists secondChoiceTools" by (simp add: secondChoiceTools_def)
  have p2: "paletteExists failingTools" by (simp add: failingTools_def)
  have p3: "\<not> paletteExists (failingTools\<lparr>paletteExists := False\<rparr>)" by simp
  have ms: "(if exampleExprs \<noteq> [] then exampleExprs else gribMatches exampleConfig) =
              ['':RPRATE:''] @ '':PRATE:'' # ['':APCP:'']"
    by (simp add: exampleExprs_def)
  have ms': "(if exampleExprs \<noteq> [] then exampleExprs else gribMatches exampleConfig) =
              ['':RPRATE:'', '':PRATE:'', '':APCP:'']"
    by (simp add: exampleExprs_def)
  have pre: "\<forall>x \<in> set ['':RPRATE:'']. candidateError exampleConfig secondChoiceTools examplePaths ''data/08H.grib2'' x \<noteq> None"
    using second_choice_first by simp
  have ok: "candidateError exampleConfig secondChoiceTools examplePaths ''data/08H.grib2'' '':PRATE:'' = None"
    by (simp add: candidateError_def second_choice_second)
  have allf: "\<forall>x \<in> set (if exampleExprs \<noteq> [] then exampleExprs else gribMatches exampleConfig).
      candidateError exampleConfig failingTools examplePaths ''data/08H.grib2'' x \<noteq> None"
    using failing_any by simp
  have lastf: "candidateError exampleConfig failingTools examplePaths ''data/08H.grib2''
                 (last ['':RPRATE:'', '':PRATE:'', '':APCP:'']) = Some noMatchError"
    by (rule failing_any)
  note A = pipeline_candidates [of secondChoiceTools exampleConfig "''data/08H.grib2''" exampleExprs
      examplePaths "['':RPRATE:'']" "'':PRATE:''" "['':APCP:'']" None]
  note B = pipeline_candidates [of failingTools exampleConfig "''data/08H.grib2''" exampleExprs
      examplePaths "[]" "[]" "[]" None]
  note C = pipeline_candidates [of "failingTools\<lparr>paletteExists := False\<rparr>" exampleConfig
      "''data/08H.grib2''" exampleExprs examplePaths "[]" "[]" "[]" None]
  have a1: "attempted (convertGribToPngViaPipeline exampleConfig secondChoiceTools ''data/08H.grib2''
      exampleExprs examplePaths) = ['':RPRATE:'', '':PRATE:''] \<and>
   (\<exists>res. outcome (convertGribToPngViaPipeline exampleConfig secondChoiceTools ''data/08H.grib2''
      exampleExprs examplePaths) = Inr res \<and> resMatchExpr res = '':PRATE:'')"
    using A p1 ms pre ok by auto
  have b1: "attempted (convertGribToPngViaPipeline exampleConfig failingTools ''data/08H.grib2''
      exampleExprs examplePaths) = ['':RPRATE:'', '':PRATE:'', '':APCP:''] \<and>
   outcome (convertGribToPngViaPipeline exampleConfig failingTools ''data/08H.grib2''
      exampleExprs examplePaths) =
     Inl (mkError (''Aucun champ trouv'' @ [CHR 0xE9] @ '' via -match. Tent'' @ [CHR 0xE9] @
                   ''s: :RPRATE:, :PRATE:, :APCP:. Derni'' @ [CHR 0xE8] @
                   ''re erreur: no matching field''))"
    using B p2 allf unfolding ms' lastf by (simp add: noMatch_details)
  have c1: "outcome (convertGribToPngViaPipeline exampleConfig (failingTools\<lparr>paletteExists := False\<rparr>)
      ''data/08H.grib2'' exampleExprs examplePaths) =
     Inl (mkError ''Palette manquante: data/palette.txt'')"
    using C p3 by (simp add: exampleConfig_def)
  show ?thesis using a1 b1 c1 by simp
qed

section \<open>Cache and refresh orchestrator: results\<close>

lemma missingTools_empty:
  "missingToolsOf env = [] \<longleftrightarrow> hasWgrib2 env \<and> hasGdalwarp env \<and> hasGdaldem env"
  by (simp add: missingToolsOf_def)

lemma pipelineStarted_iff:
  "pipelineStarted (ensureOverlayUpToDate cfg cache env g paths ms v) \<longleftrightarrow>
     regenerationWarranted cfg cache env \<and> inFlight env = None"
  by (simp add: ensureOverlayUpToDate_def Let_def split: option.splits sum.splits)

lemma warranted_unfold:
  assumes "gribMtime env \<noteq> Some 0"
  shows "regenerationWarranted cfg cache env \<longleftrightarrow>
     gribMtime env \<noteq> None \<and> hasWgrib2 env \<and> hasGdalwarp env \<and> hasGdaldem env \<and>
     (gribMtimeMs cache \<noteq> gribMtime env \<or>
      (source cache \<noteq> Wgrib2 \<and> lastErrorAt cache \<noteq> 0 \<and>
       retryIntervalMs cfg \<le> now env - lastErrorAt cache) \<or>
      pipelineAvailable cache = Some False)"
proof -
  have t: "mtimeTruthy (gribMtime env) = (gribMtime env \<noteq> None)"
    using assms by (cases "gribMtime env") (simp_all add: mtimeTruthy_def)
  show ?thesis
    unfolding regenerationWarranted_def shouldRetryAfterError_def pipelineJustBecameAvailable_def
      t missingTools_empty
    by blast
qed

lemma failure_entry:
  assumes "pipelineStarted (ensureOverlayUpToDate cfg cache env g paths ms v)"
    and "source (cacheAfter (ensureOverlayUpToDate cfg cache env g paths ms v)) = Synthetic"
  shows "gribMtimeMs (cacheAfter (ensureOverlayUpToDate cfg cache env g paths ms v)) = gribMtime env \<and>
         lastErrorAt (cacheAfter (ensureOverlayUpToDate cfg cache env g paths ms v)) = clockError env \<and>
         pipelineAvailable (cacheAfter (ensureOverlayUpToDate cfg cache env g paths ms v)) = Some True \<and>
         mtimeTruthy (gribMtime env)"
proof -
  have w: "regenerationWarranted cfg cache env" and f: "inFlight env = None"
    using assms(1) pipelineStarted_iff by blast+
  have m: "missingToolsOf env = []" and t: "mtimeTruthy (gribMtime env)"
    using w by (simp_all add: regenerationWarranted_def)
  show ?thesis
    using assms(2) w f m t
    by (simp add: ensureOverlayUpToDate_def Let_def split: sum.splits)
qed

lemma invariant_preserved:
  assumes "syntheticHasDefaultBounds cache"
  shows "syntheticHasDefaultBounds (cacheAfter (ensureOverlayUpToDate cfg cache env g paths ms v))"
  using assms
  by (simp add: ensureOverlayUpToDate_def syntheticHasDefaultBounds_def Let_def
      split: option.splits sum.splits)

lemma written_synthetic_default:
  assumes "cacheAfter (ensureOverlayUpToDate cfg cache env g paths ms v) \<noteq>
             cache\<lparr>pipelineAvailable := Some (missingToolsOf env = [])\<rparr>"
    and "source (cacheAfter (ensureOverlayUpToDate cfg cache env g paths ms v)) = Synthetic"
  shows "bounds (cacheAfter (ensureOverlayUpToDate cfg cache env g paths ms v)) = FRANCE_BOUNDS"
  using assms
  by (simp add: ensureOverlayUpToDate_def Let_def split: option.splits sum.splits if_splits)

lemma fallback_ops:
  assumes "\<not> mtimeTruthy (gribMtime env) \<or> missingToolsOf env \<noteq> []" "syntheticStale cache env"
  shows "fileOps (ensureOverlayUpToDate cfg cache env g paths ms v) = [WriteFile (overlayPng paths)] \<and>
         source (cacheAfter (ensureOverlayUpToDate cfg cache env g paths ms v)) = Synthetic \<and>
         updatedAt (cacheAfter (ensureOverlayUpToDate cfg cache env g paths ms v)) = clockUpdate env"
proof -
  have "\<not> regenerationWarranted cfg cache env" using assms(1) by (auto simp: regenerationWarranted_def)
  then show ?thesis using assms by (auto simp: ensureOverlayUpToDate_def Let_def)
qed

lemma failure_ops:
  assumes "pipelineStarted (ensureOverlayUpToDate cfg cache env g paths ms v)"
    and "source (cacheAfter (ensureOverlayUpToDate cfg cache env g paths ms v)) = Synthetic"
  shows "fileOps (ensureOverlayUpToDate cfg cache env g paths ms v) =
           fsLog (convertGribToPngViaPipeline cfg (tools env) g ms paths) @
           [WriteFile (overlayTmpPng paths), Unlink (overlayPng paths),
            Rename (overlayTmpPng paths) (overlayPng paths)]"
proof -
  have w: "regenerationWarranted cfg cache env" and f: "inFlight env = None"
    using assms(1) pipelineStarted_iff by blast+
  show ?thesis
    using assms(2) w f
    by (simp add: ensureOverlayUpToDate_def Let_def atomicReplaceFile_def split: sum.splits)
qed

lemma waiter:
  assumes "regenerationWarranted cfg cache env" "inFlight env = Some settled"
  shows "ensureOverlayUpToDate cfg cache env g paths ms v =
           \<lparr>cacheAfter = cache\<lparr>pipelineAvailable := Some True\<rparr>,
            thrown = (case settled of Inl e \<Rightarrow> Some e | Inr res \<Rightarrow> None),
            pipelineStarted = False, tried = [], fileOps = [], registryOps = []\<rparr>"
proof -
  have m: "missingToolsOf env = []" using assms(1) by (simp add: regenerationWarranted_def)
  show ?thesis using assms m by (simp add: ensureOverlayUpToDate_def Let_def)
qed

lemma owner_registry:
  assumes "regenerationWarranted cfg cache env" "inFlight env = None"
  shows "registryOps (ensureOverlayUpToDate cfg cache env g paths ms v) = [Register, Deregister] \<and>
         thrown (ensureOverlayUpToDate cfg cache env g paths ms v) = None"
  using assms by (simp add: ensureOverlayUpToDate_def Let_def split: sum.splits)


text \<open>Concrete runs of the orchestrator.\<close>

lemma failing_run:
  "convertGribToPngViaPipeline exampleConfig failingTools ''data/08H.grib2'' exampleExprs examplePaths =
     \<lparr>attempted = ['':RPRATE:'', '':PRATE:'', '':APCP:''],
      fsLog = [Unlink ''cache/rprate_08H.nc'', Unlink ''cache/rprate_08H.nc'',
               Unlink ''cache/rprate_08H.nc''],
      outcome = Inl (mkError (noFieldMessage ['':RPRATE:'', '':PRATE:'', '':APCP:'']
                               (Some noMatchError)))\<rparr>"
  by (simp add: convertGribToPngViaPipeline_def Let_def pipeline_unfold exampleExprs_def
      failingTools_def examplePaths_def)

lemma ready_fresh_warranted: "regenerationWarranted cfg makeEmptyCache (readyRequest tc t)"
  by (simp add: regenerationWarranted_def readyRequest_def makeEmptyCache_def mtimeTruthy_def
      missingToolsOf_def)

lemma first_request_fails:
  "ensureOverlayUpToDate exampleConfig makeEmptyCache (readyRequest failingTools 1700000100000)
     ''data/08H.grib2'' examplePaths exampleExprs ''RPRATE'' =
   \<lparr>cacheAfter =
      \<lparr>updatedAt = 1700000100900, bounds = FRANCE_BOUNDS, source = Synthetic,
       message = ''Erreur pipeline: '' @ errorDetails (Some (mkError
          (noFieldMessage ['':RPRATE:'', '':PRATE:'', '':APCP:''] (Some noMatchError)))),
       gribMtimeMs = Some 1700000000000, pipelineAvailable = Some True,
       lastErrorAt = 1700000100901\<rparr>,
    thrown = None, pipelineStarted = True,
    tried = ['':RPRATE:'', '':PRATE:'', '':APCP:''],
    fileOps = [Unlink ''cache/rprate_08H.nc'', Unlink ''cache/rprate_08H.nc'',
               Unlink ''cache/rprate_08H.nc'', WriteFile ''cache/rprate_08H_color.tmp.png'',
               Unlink ''cache/rprate_08H_color.png'',
               Rename ''cache/rprate_08H_color.tmp.png'' ''cache/rprate_08H_color.png''],
    registryOps = [Register, Deregister]\<rparr>"
proof -
  have t: "tools (readyRequest failingTools 1700000100000) = failingTools"
    by (simp add: readyRequest_def)
  show ?thesis
    unfolding ensureOverlayUpToDate_def Let_def t failing_run
    by (simp add: ready_fresh_warranted)
      (simp add: readyRequest_def makeEmptyCache_def missingToolsOf_def examplePaths_def
        atomicReplaceFile_def)
qed

lemma entryAfterFailure_eq:
  "entryAfterFailure =
      \<lparr>updatedAt = 1700000100900, bounds = FRANCE_BOUNDS, source = Synthetic,
       message = ''Erreur pipeline: '' @ errorDetails (Some (mkError
          (noFieldMessage ['':RPRATE:'', '':PRATE:'', '':APCP:''] (Some noMatchError)))),
       gribMtimeMs = Some 1700000000000, pipelineAvailable = Some True,
       lastErrorAt = 1700000100901\<rparr>"
  unfolding entryAfterFailure_def first_request_fails by simp

text \<open>What each branch of the orchestrator leaves in \<open>source\<close> and \<open>bounds\<close>, from the
  condition under which the branch is taken.\<close>

lemma failure_branch_entry:
  assumes "regenerationWarranted cfg cache env" "inFlight env = None"
    and "outcome (convertGribToPngViaPipeline cfg (tools env) g ms paths) = Inl e"
  shows "source (cacheAfter (ensureOverlayUpToDate cfg cache env g paths ms v)) = Synthetic \<and>
         bounds (cacheAfter (ensureOverlayUpToDate cfg cache env g paths ms v)) = FRANCE_BOUNDS"
  using assms by (simp add: ensureOverlayUpToDate_def Let_def)

lemma success_branch_entry:
  assumes "regenerationWarranted cfg cache env" "inFlight env = None"
    and "outcome (convertGribToPngViaPipeline cfg (tools env) g ms paths) = Inr res"
  shows "source (cacheAfter (ensureOverlayUpToDate cfg cache env g paths ms v)) = Wgrib2 \<and>
         bounds (cacheAfter (ensureOverlayUpToDate cfg cache env g paths ms v)) = resBounds res"
  using assms by (simp add: ensureOverlayUpToDate_def Let_def)

lemma missing_branch_entry:
  assumes "\<not> mtimeTruthy (gribMtime env)" "syntheticStale cache env"
  shows "source (cacheAfter (ensureOverlayUpToDate cfg cache env g paths ms v)) = Synthetic \<and>
         bounds (cacheAfter (ensureOverlayUpToDate cfg cache env g paths ms v)) = FRANCE_BOUNDS"
proof -
  have "\<not> regenerationWarranted cfg cache env" using assms(1) by (simp add: regenerationWarranted_def)
  then show ?thesis using assms by (simp add: ensureOverlayUpToDate_def Let_def)
qed

lemma unavailable_branch_entry:
  assumes "mtimeTruthy (gribMtime env)" "missingToolsOf env \<noteq> []" "syntheticStale cache env"
  shows "source (cacheAfter (ensureOverlayUpToDate cfg cache env g paths ms v)) = Synthetic \<and>
         bounds (cacheAfter (ensureOverlayUpToDate cfg cache env g paths ms v)) = FRANCE_BOUNDS"
proof -
  have "\<not> regenerationWarranted cfg cache env" using assms(2) by (simp add: regenerationWarranted_def)
  then show ?thesis using assms by (simp add: ensureOverlayUpToDate_def Let_def)
qed

lemma other_paths_entry:
  assumes "regenerationWarranted cfg cache env \<longrightarrow> inFlight env \<noteq> None"
    and "\<not> regenerationWarranted cfg cache env \<longrightarrow>
           \<not> syntheticStale cache env \<or> (mtimeTruthy (gribMtime env) \<and> missingToolsOf env = [])"
  shows "source (cacheAfter (ensureOverlayUpToDate cfg cache env g paths ms v)) = source cache \<and>
         bounds (cacheAfter (ensureOverlayUpToDate cfg cache env g paths ms v)) = bounds cache"
  using assms by (auto simp add: ensureOverlayUpToDate_def Let_def split: option.splits)


text \<open>
  Claim C8. The fresh entry is synthetic with the default bounding box. A call
  whose pipeline fails (regeneration warranted, nothing in flight, every candidate
  failing or the palette missing), a call that finds the source file missing with a
  stale artifact, and a call that finds the toolchain unavailable with a stale
  artifact each leave the entry with source synthetic and the default bounds,
  whatever the entry was before. A call whose pipeline succeeds leaves source
  toolchain with the bounds the pipeline returned; every other call leaves source
  and bounds as they were. Hence the invariant that a synthetic entry has the
  default bounds holds for the fresh entry and is preserved by every call, and a
  call that assigns to the entry and leaves it synthetic leaves the default bounds.
\<close>

theorem synthetic_entries_have_default_bounds:
  "source makeEmptyCache = Synthetic \<and> bounds makeEmptyCache = FRANCE_BOUNDS \<and>
   (regenerationWarranted cfg cache env \<and> inFlight env = None \<and>
    outcome (convertGribToPngViaPipeline cfg (tools env) g ms paths) = Inl e \<longrightarrow>
      source (cacheAfter (ensureOverlayUpToDate cfg cache env g paths ms v)) = Synthetic \<and>
      bounds (cacheAfter (ensureOverlayUpToDate cfg cache env g paths ms v)) = FRANCE_BOUNDS) \<and>
   (\<not> mtimeTruthy (gribMtime env) \<and> syntheticStale cache env \<longrightarrow>
      source (cacheAfter (ensureOverlayUpToDate cfg cache env g paths ms v)) = Synthetic \<and>
      bounds (cacheAfter (ensureOverlayUpToDate cfg cache env g paths ms v)) = FRANCE_BOUNDS) \<and>
   (mtimeTruthy (gribMtime env) \<and> missingToolsOf env \<noteq> [] \<and> syntheticStale cache env \<longrightarrow>
      source (cacheAfter (ensureOverlayUpToDate cfg cache env g paths ms v)) = Synthetic \<and>
      bounds (cacheAfter (ensureOverlayUpToDate cfg cache env g paths ms v)) = FRANCE_BOUNDS) \<and>
   (regenerationWarranted cfg cache env \<and> inFlight env = None \<and>
    outcome (convertGribToPngViaPipeline cfg (tools env) g ms paths) = Inr res \<longrightarrow>
      source (cacheAfter (ensureOverlayUpToDate cfg cache env g paths ms v)) = Wgrib2 \<and>
      bounds (cacheAfter (ensureOverlayUpToDate cfg cache env g paths ms v)) = resBounds res) \<and>
   ((regenerationWarranted cfg cache env \<longrightarrow> inFlight env \<noteq> None) \<and>
    (\<not> regenerationWarranted cfg cache env \<longrightarrow>
       \<not> syntheticStale cache env \<or> (mtimeTruthy (gribMtime env) \<and> missingToolsOf env = [])) \<longrightarrow>
      source (cacheAfter (ensureOverlayUpToDate cfg cache env g paths ms v)) = source cache \<and>
      bounds (cacheAfter (ensureOverlayUpToDate cfg cache env g paths ms v)) = bounds cache) \<and>
   syntheticHasDefaultBounds makeEmptyCache \<and>
   (syntheticHasDefaultBounds cache \<longrightarrow>
      syntheticHasDefaultBounds (cacheAfter (ensureOverlayUpToDate cfg cache env g paths ms v))) \<and>
   (cacheAfter (ensureOverlayUpToDate cfg cache env g paths ms v) \<noteq>
      cache\<lparr>pipelineAvailable := Some (missingToolsOf env = [])\<rparr> \<and>
    source (cacheAfter (ensureOverlayUpToDate cfg cache env g paths ms v)) = Synthetic \<longrightarrow>
      bounds (cacheAfter (ensureOverlayUpToDate cfg cache env g paths ms v)) = FRANCE_BOUNDS)"
proof -
  have fresh: "source makeEmptyCache = Synthetic \<and> bounds makeEmptyCache = FRANCE_BOUNDS"
    by (simp add: makeEmptyCache_def)
  then have inv0: "syntheticHasDefaultBounds makeEmptyCache"
    by (simp add: syntheticHasDefaultBounds_def)
  show ?thesis
    using fresh inv0
      failure_branch_entry [of cfg cache env g ms paths e v]
      missing_branch_entry [of env cache cfg g paths ms v]
      unavailable_branch_entry [of env cache cfg g paths ms v]
      success_branch_entry [of cfg cache env g ms paths res v]
      other_paths_entry [of cfg cache env g paths ms v]
      invariant_preserved [of cache cfg env g paths ms v]
      written_synthetic_default [of cfg cache env g paths ms v]
    by blast
qed

text \<open>From an entry whose source is the toolchain and whose bounds are cropped, each of
  the three branches leaves a synthetic entry with the default bounds: a request at
  which every candidate fails, one at which the grid file is missing, and one at
  which \<open>gdalwarp\<close> is not found.\<close>

theorem synthetic_entries_have_default_bounds_witness:
  "source toolchainEntry = Wgrib2 \<and>
   bounds toolchainEntry = ((49, - 4), (50, - 2)) \<and>
   source (cacheAfter (ensureOverlayUpToDate exampleConfig toolchainEntry
      (readyRequest failingTools 1700000100000) ''data/08H.grib2'' examplePaths exampleExprs
      ''RPRATE'')) = Synthetic \<and>
   bounds (cacheAfter (ensureOverlayUpToDate exampleConfig toolchainEntry
      (readyRequest failingTools 1700000100000) ''data/08H.grib2'' examplePaths exampleExprs
      ''RPRATE'')) = ((41.0, - 5.5), (51.5, 9.8)) \<and>
   source (cacheAfter (ensureOverlayUpToDate exampleConfig toolchainEntry
      (noGribRequest 1700000100000) ''data/08H.grib2'' examplePaths exampleExprs
      ''RPRATE'')) = Synthetic \<and>
   bounds (cacheAfter (ensureOverlayUpToDate exampleConfig toolchainEntry
      (noGribRequest 1700000100000) ''data/08H.grib2'' examplePaths exampleExprs
      ''RPRATE'')) = ((41.0, - 5.5), (51.5, 9.8)) \<and>
   source (cacheAfter (ensureOverlayUpToDate exampleConfig toolchainEntry
      (noToolRequest 1700000100000) ''data/08H.grib2'' examplePaths exampleExprs
      ''RPRATE'')) = Synthetic \<and>
   bounds (cacheAfter (ensureOverlayUpToDate exampleConfig toolchainEntry
      (noToolRequest 1700000100000) ''data/08H.grib2'' examplePaths exampleExprs
      ''RPRATE'')) = ((41.0, - 5.5), (51.5, 9.8)) \<and>
   source makeEmptyCache = Synthetic \<and>
   bounds makeEmptyCache = ((41.0, - 5.5), (51.5, 9.8))"
proof -
  have e0: "source toolchainEntry = Wgrib2" "bounds toolchainEntry = ((49, - 4), (50, - 2))"
    by (simp_all add: toolchainEntry_def)
  have w: "regenerationWarranted exampleConfig toolchainEntry (readyRequest failingTools 1700000100000)"
    by (simp add: regenerationWarranted_def readyRequest_def toolchainEntry_def mtimeTruthy_def
        missingToolsOf_def)
  have i: "inFlight (readyRequest failingTools 1700000100000) = None"
    by (simp add: readyRequest_def)
  have o: "outcome (convertGribToPngViaPipeline exampleConfig
             (tools (readyRequest failingTools 1700000100000)) ''data/08H.grib2'' exampleExprs
             examplePaths) =
           Inl (mkError (noFieldMessage ['':RPRATE:'', '':PRATE:'', '':APCP:''] (Some noMatchError)))"
    by (simp add: readyRequest_def failing_run)
  have m: "\<not> mtimeTruthy (gribMtime (noGribRequest 1700000100000))"
    by (simp add: noGribRequest_def mtimeTruthy_def)
  have t: "mtimeTruthy (gribMtime (noToolRequest 1700000100000))"
    "missingToolsOf (noToolRequest 1700000100000) \<noteq> []"
    by (simp_all add: noToolRequest_def readyRequest_def mtimeTruthy_def missingToolsOf_def)
  have st: "syntheticStale toolchainEntry (noGribRequest 1700000100000)"
    "syntheticStale toolchainEntry (noToolRequest 1700000100000)"
    by (simp_all add: syntheticStale_def noGribRequest_def noToolRequest_def readyRequest_def)
  note A = synthetic_entries_have_default_bounds [where cfg = exampleConfig
      and cache = toolchainEntry and env = "readyRequest failingTools 1700000100000"
      and g = "''data/08H.grib2''" and ms = exampleExprs and paths = examplePaths
      and v = "''RPRATE''"
      and e = "mkError (noFieldMessage ['':RPRATE:'', '':PRATE:'', '':APCP:''] (Some noMatchError))"]
  note B = synthetic_entries_have_default_bounds [where cfg = exampleConfig
      and cache = toolchainEntry and env = "noGribRequest 1700000100000"
      and g = "''data/08H.grib2''" and ms = exampleExprs and paths = examplePaths
      and v = "''RPRATE''"]
  note C = synthetic_entries_have_default_bounds [where cfg = exampleConfig
      and cache = toolchainEntry and env = "noToolRequest 1700000100000"
      and g = "''data/08H.grib2''" and ms = exampleExprs and paths = examplePaths
      and v = "''RPRATE''"]
  have a: "source (cacheAfter (ensureOverlayUpToDate exampleConfig toolchainEntry
      (readyRequest failingTools 1700000100000) ''data/08H.grib2'' examplePaths exampleExprs
      ''RPRATE'')) = Synthetic \<and>
   bounds (cacheAfter (ensureOverlayUpToDate exampleConfig toolchainEntry
      (readyRequest failingTools 1700000100000) ''data/08H.grib2'' examplePaths exampleExprs
      ''RPRATE'')) = FRANCE_BOUNDS"
    using A w i o by blast
  have b: "source (cacheAfter (ensureOverlayUpToDate exampleConfig toolchainEntry
      (noGribRequest 1700000100000) ''data/08H.grib2'' examplePaths exampleExprs
      ''RPRATE'')) = Synthetic \<and>
   bounds (cacheAfter (ensureOverlayUpToDate exampleConfig toolchainEntry
      (noGribRequest 1700000100000) ''data/08H.grib2'' examplePaths exampleExprs
      ''RPRATE'')) = FRANCE_BOUNDS"
    using B m st(1) by blast
  have c: "source (cacheAfter (ensureOverlayUpToDate exampleConfig toolchainEntry
      (noToolRequest 1700000100000) ''data/08H.grib2'' examplePaths exampleExprs
      ''RPRATE'')) = Synthetic \<and>
   bounds (cacheAfter (ensureOverlayUpToDate exampleConfig toolchainEntry
      (noToolRequest 1700000100000) ''data/08H.grib2'' examplePaths exampleExprs
      ''RPRATE'')) = FRANCE_BOUNDS"
    using C t st(2) by blast
  have f: "source makeEmptyCache = Synthetic \<and> bounds makeEmptyCache = FRANCE_BOUNDS"
    using A by blast
  show ?thesis using e0 a b c f by (simp add: FRANCE_BOUNDS_def)
qed

text \<open>
  Claim C3, as amended. For a request whose grid file has no modification time of
  exactly zero: the orchestrator starts the pipeline if and only if no conversion
  for the key is in flight, the modification time exists, the three executables are
  found, and at least one of (a) the modification time differs from the cached one,
  (b) the entry's source is not the toolchain, a failure time is recorded
  (\<open>lastErrorAt\<close> is not zero) and the backoff interval has elapsed since it, (c) the
  entry recorded the toolchain as unavailable. After a call whose pipeline failed at
  a non-zero clock reading, a later request with the same modification time, the
  tools found and nothing in flight starts the pipeline exactly when the backoff
  interval has elapsed since that failure.
\<close>

theorem regeneration_decision:
  "(gribMtime env \<noteq> Some 0 \<longrightarrow>
      (pipelineStarted (ensureOverlayUpToDate cfg cache env g paths ms v) \<longleftrightarrow>
         inFlight env = None \<and> gribMtime env \<noteq> None \<and>
         hasWgrib2 env \<and> hasGdalwarp env \<and> hasGdaldem env \<and>
         (gribMtimeMs cache \<noteq> gribMtime env \<or>
          (source cache \<noteq> Wgrib2 \<and> lastErrorAt cache \<noteq> 0 \<and>
           retryIntervalMs cfg \<le> now env - lastErrorAt cache) \<or>
          pipelineAvailable cache = Some False))) \<and>
   (pipelineStarted (ensureOverlayUpToDate cfg cache env g paths ms v) \<and>
    source (cacheAfter (ensureOverlayUpToDate cfg cache env g paths ms v)) = Synthetic \<and>
    clockError env \<noteq> 0 \<and>
    gribMtime env' = gribMtime env \<and> hasWgrib2 env' \<and> hasGdalwarp env' \<and> hasGdaldem env' \<and>
    inFlight env' = None \<longrightarrow>
      (pipelineStarted (ensureOverlayUpToDate cfg
           (cacheAfter (ensureOverlayUpToDate cfg cache env g paths ms v)) env' g paths ms v) \<longleftrightarrow>
         retryIntervalMs cfg \<le> now env' - clockError env))"
proof (intro conjI impI)
  assume "gribMtime env \<noteq> Some 0"
  then show "pipelineStarted (ensureOverlayUpToDate cfg cache env g paths ms v) \<longleftrightarrow>
         inFlight env = None \<and> gribMtime env \<noteq> None \<and>
         hasWgrib2 env \<and> hasGdalwarp env \<and> hasGdaldem env \<and>
         (gribMtimeMs cache \<noteq> gribMtime env \<or>
          (source cache \<noteq> Wgrib2 \<and> lastErrorAt cache \<noteq> 0 \<and>
           retryIntervalMs cfg \<le> now env - lastErrorAt cache) \<or>
          pipelineAvailable cache = Some False)"
    using pipelineStarted_iff [of cfg cache env g paths ms v] warranted_unfold [of env cfg cache]
    by blast
next
  let ?c = "cacheAfter (ensureOverlayUpToDate cfg cache env g paths ms v)"
  assume h: "pipelineStarted (ensureOverlayUpToDate cfg cache env g paths ms v) \<and>
    source ?c = Synthetic \<and> clockError env \<noteq> 0 \<and>
    gribMtime env' = gribMtime env \<and> hasWgrib2 env' \<and> hasGdalwarp env' \<and> hasGdaldem env' \<and>
    inFlight env' = None"
  then have fe: "gribMtimeMs ?c = gribMtime env \<and> lastErrorAt ?c = clockError env \<and>
         pipelineAvailable ?c = Some True \<and> mtimeTruthy (gribMtime env)"
    by (intro failure_entry) blast+
  have m: "missingToolsOf env' = []" using h by (simp add: missingTools_empty)
  have "regenerationWarranted cfg ?c env' \<longleftrightarrow> retryIntervalMs cfg \<le> now env' - clockError env"
    unfolding regenerationWarranted_def shouldRetryAfterError_def pipelineJustBecameAvailable_def
    using fe h m by simp
  then show "pipelineStarted (ensureOverlayUpToDate cfg ?c env' g paths ms v) \<longleftrightarrow>
         retryIntervalMs cfg \<le> now env' - clockError env"
    using pipelineStarted_iff [of cfg ?c env' g paths ms v] h by simp
qed

text \<open>After the failure recorded at 1700000100901, a request 9 seconds later starts
  nothing and a request 19 seconds later starts the pipeline again.\<close>

theorem regeneration_decision_witness:
  "pipelineStarted (ensureOverlayUpToDate exampleConfig makeEmptyCache
      (readyRequest failingTools 1700000100000) ''data/08H.grib2'' examplePaths exampleExprs ''RPRATE'') \<and>
   lastErrorAt entryAfterFailure = 1700000100901 \<and>
   \<not> pipelineStarted (ensureOverlayUpToDate exampleConfig entryAfterFailure
      (readyRequest failingTools 1700000110000) ''data/08H.grib2'' examplePaths exampleExprs ''RPRATE'') \<and>
   pipelineStarted (ensureOverlayUpToDate exampleConfig entryAfterFailure
      (readyRequest failingTools 1700000120000) ''data/08H.grib2'' examplePaths exampleExprs ''RPRATE'')"
proof -
  note A = regeneration_decision [of "readyRequest failingTools 1700000100000" exampleConfig
      makeEmptyCache "''data/08H.grib2''" examplePaths exampleExprs "''RPRATE''"
      "readyRequest failingTools 1700000110000", folded entryAfterFailure_def]
  note B = regeneration_decision [of "readyRequest failingTools 1700000100000" exampleConfig
      makeEmptyCache "''data/08H.grib2''" examplePaths exampleExprs "''RPRATE''"
      "readyRequest failingTools 1700000120000", folded entryAfterFailure_def]
  have e: "source entryAfterFailure = Synthetic" "lastErrorAt entryAfterFailure = 1700000100901"
    by (simp_all add: entryAfterFailure_eq)
  have r: "retryIntervalMs exampleConfig = 15000" by (simp add: exampleConfig_def)
  have q: "clockError (readyRequest failingTools 1700000100000) = 1700000100901"
    "gribMtime (readyRequest failingTools t) = Some 1700000000000"
    "hasWgrib2 (readyRequest failingTools t)" "hasGdalwarp (readyRequest failingTools t)"
    "hasGdaldem (readyRequest failingTools t)" "inFlight (readyRequest failingTools t) = None"
    "now (readyRequest failingTools t) = t" for t
    by (simp_all add: readyRequest_def)
  have f: "gribMtimeMs makeEmptyCache = None" by (simp add: makeEmptyCache_def)
  have s: "pipelineStarted (ensureOverlayUpToDate exampleConfig makeEmptyCache
      (readyRequest failingTools 1700000100000) ''data/08H.grib2'' examplePaths exampleExprs ''RPRATE'')"
    using A q f by simp
  have n1: "\<not> pipelineStarted (ensureOverlayUpToDate exampleConfig entryAfterFailure
      (readyRequest failingTools 1700000110000) ''data/08H.grib2'' examplePaths exampleExprs ''RPRATE'')"
    using A s e r q by simp
  have n2: "pipelineStarted (ensureOverlayUpToDate exampleConfig entryAfterFailure
      (readyRequest failingTools 1700000120000) ''data/08H.grib2'' examplePaths exampleExprs ''RPRATE'')"
    using B s e r q by simp
  show ?thesis using s e n1 n2 by simp
qed

text \<open>The decision as worded fails in two ways. On an entry that is synthetic with the
  file's modification time and no failure recorded, the worded condition (b) holds
  long after time zero, but the code starts nothing, because it retries only when
  \<open>lastErrorAt\<close> is not zero. And while a conversion for the key is in flight, a
  request that meets the worded condition does not start the pipeline: it waits.\<close>

theorem regeneration_decision_as_worded_fails:
  "spec_regenerationWarranted exampleConfig unretriedEntry (readyRequest failingTools 1700000100000) \<and>
   \<not> regenerationWarranted exampleConfig unretriedEntry (readyRequest failingTools 1700000100000) \<and>
   \<not> pipelineStarted (ensureOverlayUpToDate exampleConfig unretriedEntry
        (readyRequest failingTools 1700000100000) ''data/08H.grib2'' examplePaths exampleExprs ''RPRATE'') \<and>
   spec_regenerationWarranted exampleConfig makeEmptyCache
        (waitingRequest 1700000100000 (Inl noMatchError)) \<and>
   \<not> pipelineStarted (ensureOverlayUpToDate exampleConfig makeEmptyCache
        (waitingRequest 1700000100000 (Inl noMatchError)) ''data/08H.grib2'' examplePaths exampleExprs ''RPRATE'')"
proof -
  have a: "spec_regenerationWarranted exampleConfig unretriedEntry (readyRequest failingTools 1700000100000)"
    by (simp add: spec_regenerationWarranted_def unretriedEntry_def makeEmptyCache_def
        readyRequest_def exampleConfig_def missingToolsOf_def)
  have b: "\<not> regenerationWarranted exampleConfig unretriedEntry (readyRequest failingTools 1700000100000)"
    by (simp add: regenerationWarranted_def shouldRetryAfterError_def
        pipelineJustBecameAvailable_def unretriedEntry_def makeEmptyCache_def
        readyRequest_def exampleConfig_def missingToolsOf_def)
  have c: "\<not> pipelineStarted (ensureOverlayUpToDate exampleConfig unretriedEntry
        (readyRequest failingTools 1700000100000) ''data/08H.grib2'' examplePaths exampleExprs ''RPRATE'')"
    using b by (simp add: pipelineStarted_iff)
  have d: "spec_regenerationWarranted exampleConfig makeEmptyCache
        (waitingRequest 1700000100000 (Inl noMatchError))"
    by (simp add: spec_regenerationWarranted_def makeEmptyCache_def waitingRequest_def
        readyRequest_def missingToolsOf_def)
  have e: "\<not> pipelineStarted (ensureOverlayUpToDate exampleConfig makeEmptyCache
        (waitingRequest 1700000100000 (Inl noMatchError)) ''data/08H.grib2'' examplePaths exampleExprs ''RPRATE'')"
    by (simp add: pipelineStarted_iff waitingRequest_def)
  show ?thesis using a b c d e by simp
qed

text \<open>
  Claim C2 fails on the code. The source-missing and the toolchain-unavailable
  branches write the synthetic PNG with \<open>fs.writeFile\<close> directly at the final path;
  only the pipeline and its failure branch go through the temporary path, the removal
  of the destination and the rename.
\<close>

theorem synthetic_fallback_writes_final_path:
  "((\<not> mtimeTruthy (gribMtime env) \<or> missingToolsOf env \<noteq> []) \<and> syntheticStale cache env \<longrightarrow>
      fileOps (ensureOverlayUpToDate cfg cache env g paths ms v) = [WriteFile (overlayPng paths)]) \<and>
   (pipelineStarted (ensureOverlayUpToDate cfg cache env g paths ms v) \<and>
    source (cacheAfter (ensureOverlayUpToDate cfg cache env g paths ms v)) = Synthetic \<longrightarrow>
      fileOps (ensureOverlayUpToDate cfg cache env g paths ms v) =
        fsLog (convertGribToPngViaPipeline cfg (tools env) g ms paths) @
        [WriteFile (overlayTmpPng paths), Unlink (overlayPng paths),
         Rename (overlayTmpPng paths) (overlayPng paths)])"
  using fallback_ops [of env cache cfg g paths ms v] failure_ops [of cfg cache env g paths ms v]
  by blast

text \<open>On a fresh entry, a request with the grid file missing and a request with
  \<open>gdalwarp\<close> missing each perform the single operation of writing the final PNG in
  place.\<close>

theorem synthetic_fallback_writes_final_path_witness:
  "fileOps (ensureOverlayUpToDate exampleConfig makeEmptyCache (noGribRequest 1700000100000)
      ''data/08H.grib2'' examplePaths exampleExprs ''RPRATE'') =
     [WriteFile ''cache/rprate_08H_color.png''] \<and>
   fileOps (ensureOverlayUpToDate exampleConfig makeEmptyCache (noToolRequest 1700000100000)
      ''data/08H.grib2'' examplePaths exampleExprs ''RPRATE'') =
     [WriteFile ''cache/rprate_08H_color.png''] \<and>
   fileOps (ensureOverlayUpToDate exampleConfig makeEmptyCache (readyRequest failingTools 1700000100000)
      ''data/08H.grib2'' examplePaths exampleExprs ''RPRATE'') =
     [Unlink ''cache/rprate_08H.nc'', Unlink ''cache/rprate_08H.nc'', Unlink ''cache/rprate_08H.nc'',
      WriteFile ''cache/rprate_08H_color.tmp.png'', Unlink ''cache/rprate_08H_color.png'',
      Rename ''cache/rprate_08H_color.tmp.png'' ''cache/rprate_08H_color.png'']"
proof -
  have g: "\<not> mtimeTruthy (gribMtime (noGribRequest 1700000100000)) \<or>
           missingToolsOf (noGribRequest 1700000100000) \<noteq> []"
    by (simp add: noGribRequest_def mtimeTruthy_def)
  have t: "\<not> mtimeTruthy (gribMtime (noToolRequest 1700000100000)) \<or>
           missingToolsOf (noToolRequest 1700000100000) \<noteq> []"
    by (simp add: noToolRequest_def readyRequest_def missingToolsOf_def)
  have st: "syntheticStale makeEmptyCache e" for e
    by (simp add: syntheticStale_def makeEmptyCache_def)
  have p: "overlayPng examplePaths = ''cache/rprate_08H_color.png''"
    by (simp add: examplePaths_def)
  have a: "fileOps (ensureOverlayUpToDate exampleConfig makeEmptyCache (noGribRequest 1700000100000)
      ''data/08H.grib2'' examplePaths exampleExprs ''RPRATE'') = [WriteFile ''cache/rprate_08H_color.png'']"
    using synthetic_fallback_writes_final_path [of "noGribRequest 1700000100000" makeEmptyCache
        exampleConfig "''data/08H.grib2''" examplePaths exampleExprs "''RPRATE''"] g st p
    by simp
  have b: "fileOps (ensureOverlayUpToDate exampleConfig makeEmptyCache (noToolRequest 1700000100000)
      ''data/08H.grib2'' examplePaths exampleExprs ''RPRATE'') = [WriteFile ''cache/rprate_08H_color.png'']"
    using synthetic_fallback_writes_final_path [of "noToolRequest 1700000100000" makeEmptyCache
        exampleConfig "''data/08H.grib2''" examplePaths exampleExprs "''RPRATE''"] t st p
    by simp
  show ?thesis using a b unfolding first_request_fails by simp
qed

text \<open>
  Claim C1 fails on the code when the conversion fails. A caller that finds a
  conversion in flight for the key neither starts a pipeline nor touches a file or
  the registry, and its promise settles as that conversion's promise does: when the
  conversion rejects, the waiting caller rejects with the same exception, while the
  caller that started the conversion catches it and degrades to a synthetic
  artifact. The caller that starts a conversion registers it and removes the
  registration again, whatever the outcome.
\<close>

theorem waiting_caller_inherits_rejection:
  "(regenerationWarranted cfg cache env \<and> inFlight env = Some settled \<longrightarrow>
      ensureOverlayUpToDate cfg cache env g paths ms v =
        \<lparr>cacheAfter = cache\<lparr>pipelineAvailable := Some True\<rparr>,
         thrown = (case settled of Inl e \<Rightarrow> Some e | Inr res \<Rightarrow> None),
         pipelineStarted = False, tried = [], fileOps = [], registryOps = []\<rparr>) \<and>
   (regenerationWarranted cfg cache env \<and> inFlight env = None \<longrightarrow>
      pipelineStarted (ensureOverlayUpToDate cfg cache env g paths ms v) \<and>
      registryOps (ensureOverlayUpToDate cfg cache env g paths ms v) = [Register, Deregister] \<and>
      thrown (ensureOverlayUpToDate cfg cache env g paths ms v) = None)"
  using waiter [of cfg cache env settled g paths ms v] owner_registry [of cfg cache env g paths ms v]
    pipelineStarted_iff [of cfg cache env g paths ms v]
  by blast

text \<open>Two concurrent requests for the same key while every candidate fails: the first
  caller reads \<open>updatedAt = 1700000100900\<close> from the entry; the second one, which
  awaited the conversion of the first, gets the exception and no entry at all.\<close>

theorem waiting_caller_inherits_rejection_witness:
  "metaObserved (ensureOverlayUpToDate exampleConfig makeEmptyCache
      (readyRequest failingTools 1700000100000) ''data/08H.grib2'' examplePaths exampleExprs ''RPRATE'') =
     Inr entryAfterFailure \<and>
   updatedAt entryAfterFailure = 1700000100900 \<and>
   metaObserved (ensureOverlayUpToDate exampleConfig (makeEmptyCache\<lparr>pipelineAvailable := Some True\<rparr>)
      (waitingRequest 1700000100005
         (outcome (convertGribToPngViaPipeline exampleConfig failingTools ''data/08H.grib2''
            exampleExprs examplePaths)))
      ''data/08H.grib2'' examplePaths exampleExprs ''RPRATE'') =
     Inl (mkError (noFieldMessage ['':RPRATE:'', '':PRATE:'', '':APCP:''] (Some noMatchError)))"
proof -
  have w: "regenerationWarranted exampleConfig (makeEmptyCache\<lparr>pipelineAvailable := Some True\<rparr>)
             (waitingRequest 1700000100005 s)" for s
    by (simp add: regenerationWarranted_def waitingRequest_def readyRequest_def makeEmptyCache_def
        mtimeTruthy_def missingToolsOf_def)
  have i: "inFlight (waitingRequest 1700000100005 s) = Some s" for s
    by (simp add: waitingRequest_def)
  have o: "metaObserved (ensureOverlayUpToDate exampleConfig makeEmptyCache
      (readyRequest failingTools 1700000100000) ''data/08H.grib2'' examplePaths exampleExprs ''RPRATE'') =
     Inr entryAfterFailure"
    unfolding entryAfterFailure_eq first_request_fails by (simp add: metaObserved_def)
  have u: "updatedAt entryAfterFailure = 1700000100900" by (simp add: entryAfterFailure_eq)
  show ?thesis
    using waiting_caller_inherits_rejection [of exampleConfig
        "makeEmptyCache\<lparr>pipelineAvailable := Some True\<rparr>"
        "waitingRequest 1700000100005 (outcome (convertGribToPngViaPipeline exampleConfig
           failingTools ''data/08H.grib2'' exampleExprs examplePaths))"
        "outcome (convertGribToPngViaPipeline exampleConfig failingTools ''data/08H.grib2''
           exampleExprs examplePaths)"
        "''data/08H.grib2''" examplePaths exampleExprs "''RPRATE''"]
      w i o u
    by (simp add: metaObserved_def failing_run)
qed

end
